theory Spec2Isabelle
  imports Complex_Main "HOL-Library.Word"
begin

unbundle bit_operations_syntax

section \<open>Buffers, JavaScript numbers and exceptions\<close>

text \<open>
  A Node.js \<open>Buffer\<close> is a list of bytes. An index is an \<open>int\<close>, because the
  source passes the sentinel \<open>-1\<close> for "no offset". A thrown exception is the left
  summand of a result. Integral JavaScript numbers are \<open>int\<close>; the numbers that
  the source computes with decimal fractions are exact rationals (the rounding of IEEE
  doubles is not part of the model), and the one place where the source can produce
  \<open>NaN\<close> has a number type with that value.
\<close>

type_synonym byte = "8 word"
type_synonym buffer = "byte list"

datatype error =
    UnsupportedModel "int option"
      \<comment> \<open>\<open>new Error("Cannot decode iNode MSD: '...' is not a valid device model!")\<close>\<close>
  | RangeError
      \<comment> \<open>an out-of-range \<open>readUInt16LE\<close>, \<open>readUInt32LE\<close> or \<open>readInt8\<close>\<close>
  | TypeError
      \<comment> \<open>a method call on \<open>undefined\<close>\<close>

definition bindE :: "error + 'a \<Rightarrow> ('a \<Rightarrow> error + 'b) \<Rightarrow> error + 'b" where
  "bindE m f = (case m of Inl e \<Rightarrow> Inl e | Inr x \<Rightarrow> f x)"

text \<open>\<open>buffer[i]\<close>: the byte as a number, \<open>None\<close> for \<open>undefined\<close>.\<close>

definition byteAt :: "buffer \<Rightarrow> int \<Rightarrow> int option" where
  "byteAt buffer i =
     (if 0 \<le> i \<and> i < int (length buffer) then Some (uint (buffer ! nat i)) else None)"

text \<open>The operand conversion of the bitwise operators: \<open>undefined\<close> becomes 0.\<close>

definition ToInt32 :: "int option \<Rightarrow> int" where
  "ToInt32 v = (case v of None \<Rightarrow> 0 | Some n \<Rightarrow> n)"

text \<open>The bitwise operators work on 32-bit two's complement values.\<close>

definition js_and :: "int \<Rightarrow> int \<Rightarrow> int" where
  "js_and a b = sint ((word_of_int a :: 32 word) AND word_of_int b)"

definition js_or :: "int \<Rightarrow> int \<Rightarrow> int" where
  "js_or a b = sint ((word_of_int a :: 32 word) OR word_of_int b)"

definition js_shl :: "int \<Rightarrow> nat \<Rightarrow> int" where
  "js_shl a n = sint (push_bit (n mod 32) (word_of_int a :: 32 word))"

definition js_shr :: "int \<Rightarrow> nat \<Rightarrow> int" where
  "js_shr a n = sint (signed_drop_bit (n mod 32) (word_of_int a :: 32 word))"

definition readUInt16LE :: "buffer \<Rightarrow> int \<Rightarrow> error + int" where
  "readUInt16LE buffer i =
     (if 0 \<le> i \<and> i + 2 \<le> int (length buffer)
      then Inr (uint (buffer ! nat i) + 256 * uint (buffer ! nat (i + 1)))
      else Inl RangeError)"

definition readUInt32LE :: "buffer \<Rightarrow> int \<Rightarrow> error + int" where
  "readUInt32LE buffer i =
     (if 0 \<le> i \<and> i + 4 \<le> int (length buffer)
      then Inr (uint (buffer ! nat i) + 256 * uint (buffer ! nat (i + 1))
                + 65536 * uint (buffer ! nat (i + 2)) + 16777216 * uint (buffer ! nat (i + 3)))
      else Inl RangeError)"

definition readInt8 :: "buffer \<Rightarrow> int \<Rightarrow> error + int" where
  "readInt8 buffer i =
     (if 0 \<le> i \<and> i + 1 \<le> int (length buffer)
      then Inr (sint (buffer ! nat i))
      else Inl RangeError)"

text \<open>\<open>buffer.slice(start, end)\<close>: negative arguments count from the end.\<close>

definition slice :: "buffer \<Rightarrow> int \<Rightarrow> int \<Rightarrow> buffer" where
  "slice buffer start end' =
     (let len = int (length buffer);
          s = (if start < 0 then max (len + start) 0 else min start len);
          e = (if end' < 0 then max (len + end') 0 else min end' len)
      in take (nat (e - s)) (drop (nat s) buffer))"

text \<open>\<open>Math.round\<close>: the nearest integer, a half rounded up.\<close>

definition Math_round :: "rat \<Rightarrow> int" where
  "Math_round x = \<lfloor>x + 1 / 2\<rfloor>"

datatype jsnum = NaN | Num rat

section \<open>The decoded record\<close>

datatype EirDataType = LocalNameComplete | ManufacturerSpecificData

text \<open>
  The properties \<open>typeLabel\<close>, \<open>eventTypeLabel\<close> and \<open>addressTypeLabel\<close>, which
  the source copies from the reverse mappings of the enumerations of the package
  \<open>h5.bluetooth.hci\<close>, are not part of the records below.
\<close>

record alarms =
  lowBattery :: bool
  moveAccelerometer :: "bool option"
  levelAccelerometer :: "bool option"
  levelTemperature :: "bool option"
  levelHumidity :: "bool option"
  contactChange :: "bool option"
  moveStopped :: "bool option"
  moveGTimer :: "bool option"
  levelAccelerometerChange :: "bool option"
  levelMagnetChange :: "bool option"
  levelMagnetTimer :: "bool option"

record position =
  motion :: bool
  pos_x :: int
  pos_y :: int
  pos_z :: int

text \<open>
  The object that the decoders fill in. A property that has not been assigned is
  \<open>None\<close>. \<open>time\<close> is in milliseconds since the epoch.
\<close>

record msd =
  msd_type :: "EirDataType option"
  companyIdentifier :: "int option"
  model :: "int option"
  modelLabel :: "string option"
  rtto :: "bool option"
  alarms :: "alarms option"
  groups :: "int option"
  batteryLevel :: "int option"
  batteryVoltage :: "rat option"
  position :: "position option"
  temperature :: "jsnum option"
  humidity :: "rat option"
  magneticField :: "int option"
  magneticFieldDirection :: "bool option"
  msd_input :: "bool option"
  msd_output :: "bool option"
  time :: "int option"
  signature :: "buffer option"
  averageUnit :: "string option"
  sumUnit :: "string option"
  msd_unit :: "int option"
  msd_constant :: "int option"
  average :: "rat option"
  msd_sum :: "rat option"
  lightLevel :: "rat option"
  weekDay :: "int option"
  weekDayTotal :: "int option"

section \<open>Field primitives\<close>

text \<open>\<open>!!(buffer[i] & mask)\<close>.\<close>

definition testByte :: "buffer \<Rightarrow> int \<Rightarrow> int \<Rightarrow> bool" where
  "testByte buffer i m = (js_and (ToInt32 (byteAt buffer i)) m \<noteq> 0)"

definition decodeInput :: "buffer \<Rightarrow> int \<Rightarrow> msd \<Rightarrow> msd" where
  "decodeInput buffer i msd = msd\<lparr>msd_input := Some (testByte buffer i 0x08)\<rparr>"

definition decodeOutput :: "buffer \<Rightarrow> int \<Rightarrow> msd \<Rightarrow> msd" where
  "decodeOutput buffer i msd = msd\<lparr>msd_output := Some (testByte buffer i 0x01)\<rparr>"

definition decodeRtto :: "buffer \<Rightarrow> int \<Rightarrow> msd \<Rightarrow> msd" where
  "decodeRtto buffer i msd = msd\<lparr>rtto := Some (testByte buffer i 0x02)\<rparr>"

definition decodeMagneticFieldDirection :: "buffer \<Rightarrow> int \<Rightarrow> msd \<Rightarrow> msd" where
  "decodeMagneticFieldDirection buffer i msd =
     msd\<lparr>magneticFieldDirection := Some (testByte buffer i 0x08)\<rparr>"

text \<open>
  \<open>decodeAlarms\<close> of the current module: the battery byte is shifted left by 13 and
  masked with \<open>0x8000\<close>; the ten extended flags are assigned only when an extended
  offset is given.
\<close>

definition decodeAlarms :: "buffer \<Rightarrow> int \<Rightarrow> int \<Rightarrow> msd \<Rightarrow> error + msd" where
  "decodeAlarms buffer batteryI extendedI msd =
     (let battery =
            js_and (js_shl (if batteryI = -1 then 0 else ToInt32 (byteAt buffer batteryI)) 13)
              0x8000
      in bindE (if extendedI = -1 then Inr 0 else readUInt16LE buffer extendedI) (\<lambda>extended.
           let alarms = js_or extended battery;
               a = \<lparr>lowBattery = (js_and alarms 0x8000 \<noteq> 0),
                    moveAccelerometer = None, levelAccelerometer = None,
                    levelTemperature = None, levelHumidity = None, contactChange = None,
                    moveStopped = None, moveGTimer = None, levelAccelerometerChange = None,
                    levelMagnetChange = None, levelMagnetTimer = None\<rparr>
           in Inr (msd\<lparr>alarms := Some
                (if extendedI \<noteq> -1
                 then a\<lparr>moveAccelerometer := Some (js_and alarms 0x01 \<noteq> 0),
                        levelAccelerometer := Some (js_and alarms 0x02 \<noteq> 0),
                        levelTemperature := Some (js_and alarms 0x04 \<noteq> 0),
                        levelHumidity := Some (js_and alarms 0x08 \<noteq> 0),
                        contactChange := Some (js_and alarms 0x10 \<noteq> 0),
                        moveStopped := Some (js_and alarms 0x20 \<noteq> 0),
                        moveGTimer := Some (js_and alarms 0x40 \<noteq> 0),
                        levelAccelerometerChange := Some (js_and alarms 0x80 \<noteq> 0),
                        levelMagnetChange := Some (js_and alarms 0x100 \<noteq> 0),
                        levelMagnetTimer := Some (js_and alarms 0x200 \<noteq> 0)\<rparr>
                 else a)\<rparr>)))"

text \<open>
  \<open>decodeAlarms\<close> of the older module in the same file: the mask of the battery
  byte is \<open>0xC000\<close>, and all eleven flags are always assigned.
\<close>

record legacy_alarms =
  l_moveAccelerometer :: bool
  l_levelAccelerometer :: bool
  l_levelTemperature :: bool
  l_levelHumidity :: bool
  l_contactChange :: bool
  l_moveStopped :: bool
  l_moveGTimer :: bool
  l_levelAccelerometerChange :: bool
  l_levelMagnetChange :: bool
  l_levelMagnetTimer :: bool
  l_lowBattery :: bool

definition legacy_decodeAlarms :: "buffer \<Rightarrow> int \<Rightarrow> int \<Rightarrow> error + legacy_alarms" where
  "legacy_decodeAlarms buffer batteryI extendedI =
     (let battery =
            js_and (js_shl (if batteryI = -1 then 0 else ToInt32 (byteAt buffer batteryI)) 13)
              0xC000
      in bindE (if extendedI = -1 then Inr 0 else readUInt16LE buffer extendedI) (\<lambda>extended.
           let alarms = js_or extended battery
           in Inr \<lparr>l_moveAccelerometer = (js_and alarms 0x01 \<noteq> 0),
                   l_levelAccelerometer = (js_and alarms 0x02 \<noteq> 0),
                   l_levelTemperature = (js_and alarms 0x04 \<noteq> 0),
                   l_levelHumidity = (js_and alarms 0x08 \<noteq> 0),
                   l_contactChange = (js_and alarms 0x10 \<noteq> 0),
                   l_moveStopped = (js_and alarms 0x20 \<noteq> 0),
                   l_moveGTimer = (js_and alarms 0x40 \<noteq> 0),
                   l_levelAccelerometerChange = (js_and alarms 0x80 \<noteq> 0),
                   l_levelMagnetChange = (js_and alarms 0x100 \<noteq> 0),
                   l_levelMagnetTimer = (js_and alarms 0x200 \<noteq> 0),
                   l_lowBattery = (js_and alarms 0x8000 \<noteq> 0)\<rparr>))"

definition decodeGroups :: "buffer \<Rightarrow> int \<Rightarrow> msd \<Rightarrow> error + msd" where
  "decodeGroups buffer i msd =
     bindE (readUInt16LE buffer i) (\<lambda>w. Inr (msd\<lparr>groups := Some (js_and w 0x0FFF)\<rparr>))"

text \<open>The shift count of \<open>decodeBatteryLevel\<close> is 4 or 12 at every call of the source.\<close>

definition decodeBatteryLevel :: "buffer \<Rightarrow> int \<Rightarrow> nat \<Rightarrow> msd \<Rightarrow> error + msd" where
  "decodeBatteryLevel buffer i shift msd =
     bindE (readUInt16LE buffer i) (\<lambda>w.
       let value = js_and (js_shr w shift) 0x0F;
           level = (if value = 1 then 100 else 10 * (min value 11 - 1))
       in Inr (msd\<lparr>batteryLevel := Some level,
                    batteryVoltage := Some ((of_int level - 10) * 1.2 / 100 + 1.8)\<rparr>))"

text \<open>
  \<open>decodeEnergyMeter\<close>. The weekday of yesterday, which the source takes from the
  clock, is the parameter \<open>yesterday\<close>. The label of cubic metres is the letter m and
  the two bytes of the superscript three in UTF-8.
\<close>

definition decodeEnergyMeter :: "int \<Rightarrow> buffer \<Rightarrow> int \<Rightarrow> msd \<Rightarrow> error + msd" where
  "decodeEnergyMeter yesterday buffer i msd =
     bindE (readUInt16LE buffer (i + 6)) (\<lambda>options.
       let unit = js_and (js_shr options 14) 3;
           constant0 = js_and options 0x3FFF;
           labels = (if unit = 0 then (''kWh'', ''kW'')
                     else if unit = 1 then ([CHR ''m'', CHR 0xC2, CHR 0xB3], [CHR ''m'', CHR 0xC2, CHR 0xB3])
                     else (''cnt'', ''cnt''));
           constant = (if unit = 0 then (if constant0 = 0 then 1000 else constant0)
                       else if unit = 1 then (if constant0 = 0 then 1000 else constant0)
                       else (if constant0 = 0 then 1 else constant0))
       in bindE (readUInt16LE buffer i) (\<lambda>rawAverage.
          bindE (readUInt32LE buffer (i + 2)) (\<lambda>rawSum.
            let msd1 = msd\<lparr>averageUnit := Some (fst labels), sumUnit := Some (snd labels),
                           msd_unit := Some unit, msd_constant := Some constant,
                           average := Some (of_int (Math_round
                              (60 * of_int rawAverage / of_int constant * 1000)) / 1000),
                           msd_sum := Some (of_int (Math_round
                              (of_int rawSum / of_int constant * 1000)) / 1000)\<rparr>;
                extraDataLength = i + 2 + 4 + 2 + 1 + 2
            in if int (length buffer) \<ge> extraDataLength
               then bindE (decodeBatteryLevel buffer (i + 8) 4 msd1) (\<lambda>msd2.
                    bindE (readUInt16LE buffer (i + 9)) (\<lambda>weekDataData.
                      Inr (msd2\<lparr>lightLevel := Some (of_int (Math_round
                                    (of_int (js_and (ToInt32 (byteAt buffer (i + 8))) 0x0F)
                                      * 100 / 15 * 10)) / 10),
                                weekDay := Some (js_shr weekDataData 13),
                                weekDayTotal := Some (js_and weekDataData 0x1FFF)\<rparr>)))
               else Inr (msd1\<lparr>batteryLevel := Some 100, batteryVoltage := Some 2.88,
                              lightLevel := Some 0, weekDay := Some yesterday,
                              weekDayTotal := Some 0\<rparr>))))"

definition decodeMotionSensor :: "buffer \<Rightarrow> int \<Rightarrow> msd \<Rightarrow> error + msd" where
  "decodeMotionSensor buffer i msd =
     bindE (readUInt16LE buffer i) (\<lambda>value.
       let x = js_and (js_shr value 10) 0x1F;
           y = js_and (js_shr value 5) 0x1F;
           z = js_and value 0x1F
       in Inr (msd\<lparr>position := Some
            \<lparr>motion = (js_and value 0x8000 \<noteq> 0),
             pos_x = x - (if js_and x 0x10 \<noteq> 0 then 0x1F else 0),
             pos_y = y - (if js_and y 0x10 \<noteq> 0 then 0x1F else 0),
             pos_z = z - (if js_and z 0x10 \<noteq> 0 then 0x1F else 0)\<rparr>\<rparr>))"

text \<open>
  The three temperature decoders. Each computes a value, clamps it and stores it; the
  value before the clamp is a function of its own, so that it can be named.
\<close>

definition clamp_m30_70 :: "rat \<Rightarrow> rat" where
  "clamp_m30_70 value = (if value < -30 then -30 else if value > 70 then 70 else value)"

definition csrValue :: "int \<Rightarrow> int" where
  "csrValue raw = (if raw > 127 then raw - 8192 else raw)"

definition decodeCsrTemperature :: "buffer \<Rightarrow> int \<Rightarrow> msd \<Rightarrow> error + msd" where
  "decodeCsrTemperature buffer i msd =
     bindE (readUInt16LE buffer i) (\<lambda>raw.
       let value = csrValue raw;
           value = (if value < -30 then -30 else if value > 70 then 70 else value)
       in Inr (msd\<lparr>temperature := Some (Num (of_int value))\<rparr>))"

text \<open>
  \<open>decodeMcp9844Temperature\<close> indexes the buffer directly: a missing first byte
  makes the value \<open>NaN\<close>, which no comparison changes and \<open>Math.round\<close> keeps; a
  missing second byte counts as 0 in the bitwise operations.
\<close>

definition mcp9844Value :: "int option \<Rightarrow> int option \<Rightarrow> jsnum" where
  "mcp9844Value b1 b2 =
     (case b1 of
        None \<Rightarrow> NaN
      | Some v1 \<Rightarrow>
          (let value = of_int v1 * 0.0625 + 16 * of_int (js_and (ToInt32 b2) 0x0F)
           in Num (if js_and (ToInt32 b2) 0x10 \<noteq> 0 then value - 256 else value)))"

definition decodeMcp9844Temperature :: "buffer \<Rightarrow> int \<Rightarrow> msd \<Rightarrow> error + msd" where
  "decodeMcp9844Temperature buffer i msd =
     (let b1 = byteAt buffer i;
          b2 = byteAt buffer (i + 1)
      in Inr (msd\<lparr>temperature := Some
           (case mcp9844Value b1 b2 of
              NaN \<Rightarrow> NaN
            | Num value \<Rightarrow> Num (of_int (Math_round (clamp_m30_70 value * 100)) / 100))\<rparr>))"

definition si7021TemperatureValue :: "int \<Rightarrow> rat" where
  "si7021TemperatureValue raw = of_int raw * 175.72 * 4 / 65536 - 46.85"

definition decodeSi7021Temperature :: "buffer \<Rightarrow> int \<Rightarrow> msd \<Rightarrow> error + msd" where
  "decodeSi7021Temperature buffer i msd =
     bindE (readUInt16LE buffer i) (\<lambda>raw.
       Inr (msd\<lparr>temperature := Some
         (Num (of_int (Math_round (clamp_m30_70 (si7021TemperatureValue raw) * 100)) / 100))\<rparr>))"

definition decodeSi7021Humidity :: "buffer \<Rightarrow> int \<Rightarrow> msd \<Rightarrow> error + msd" where
  "decodeSi7021Humidity buffer i msd =
     bindE (readUInt16LE buffer i) (\<lambda>raw.
       let value = of_int raw * 125 * 4 / 65536 - 6;
           value = (if value < 1 then 1 else if value > 100 then 100 else (value :: rat))
       in Inr (msd\<lparr>humidity := Some (of_int (Math_round (value * 100)) / 100)\<rparr>))"

definition decodeMagneticField :: "buffer \<Rightarrow> int \<Rightarrow> msd \<Rightarrow> error + msd" where
  "decodeMagneticField buffer i msd =
     bindE (readUInt16LE buffer i) (\<lambda>w. Inr (msd\<lparr>magneticField := Some w\<rparr>))"

definition decodeTime :: "buffer \<Rightarrow> int \<Rightarrow> msd \<Rightarrow> error + msd" where
  "decodeTime buffer i msd =
     bindE (readUInt16LE buffer i) (\<lambda>w1.
     bindE (readUInt16LE buffer (i + 2)) (\<lambda>value2.
       let value1 = js_shl w1 16;
           value = js_or value1 value2
       in Inr (msd\<lparr>time := Some (value * 1000)\<rparr>)))"

definition decodeSignature :: "buffer \<Rightarrow> int \<Rightarrow> msd \<Rightarrow> msd" where
  "decodeSignature buffer i msd = msd\<lparr>signature := Some (slice buffer i (i + 8))\<rparr>"

section \<open>Decode recipes and the two dispatch tables\<close>

type_synonym decoder = "buffer \<Rightarrow> int \<Rightarrow> msd \<Rightarrow> error + msd"

text \<open>\<open>if (decode) { decode(buffer, i, msd); }\<close> for a decoder that may be \<open>null\<close>.\<close>

definition optionally :: "decoder option \<Rightarrow> decoder" where
  "optionally decode buffer i msd =
     (case decode of None \<Rightarrow> Inr msd | Some f \<Rightarrow> f buffer i msd)"

text \<open>The clock of the host: \<open>new Date()\<close> and the weekday of the day before.\<close>

record clock =
  clock_now :: int
  clock_yesterday :: int

definition decodeGsmCareSensor ::
  "clock \<Rightarrow> buffer \<Rightarrow> decoder option \<Rightarrow> decoder option \<Rightarrow> decoder option \<Rightarrow> msd \<Rightarrow> error + msd"
where
  "decodeGsmCareSensor clk buffer decodePosition decodeValue1 decodeValue2 msd =
     bindE (decodeAlarms buffer 0 24 msd) (\<lambda>msd.
     bindE (optionally decodePosition buffer 26
              (msd\<lparr>groups := Some 0, batteryLevel := Some 100, batteryVoltage := Some 2.88\<rparr>))
       (\<lambda>msd.
     bindE (optionally decodeValue1 buffer 28 msd) (\<lambda>msd.
     bindE (optionally decodeValue2 buffer 30 msd) (\<lambda>msd.
       Inr (msd\<lparr>time := Some (clock_now clk), signature := Some (replicate 8 0)\<rparr>)))))"

definition decodeMsdCareSensor ::
  "buffer \<Rightarrow> decoder option \<Rightarrow> decoder option \<Rightarrow> decoder option \<Rightarrow> msd \<Rightarrow> error + msd"
where
  "decodeMsdCareSensor buffer decodePosition decodeValue1 decodeValue2 msd =
     bindE (decodeAlarms buffer 0 4 msd) (\<lambda>msd.
     bindE (decodeGroups buffer 2 msd) (\<lambda>msd.
     bindE (decodeBatteryLevel buffer 2 12 msd) (\<lambda>msd.
     bindE (optionally decodePosition buffer 6 msd) (\<lambda>msd.
     bindE (optionally decodeValue1 buffer 8 msd) (\<lambda>msd.
     bindE (optionally decodeValue2 buffer 10 msd) (\<lambda>msd.
     bindE (decodeTime buffer 12 msd) (\<lambda>msd.
       Inr (decodeSignature buffer 16 msd))))))))"

text \<open>The values of \<open>DeviceModel\<close>.\<close>

definition Beacon :: int where "Beacon = 0x80"
definition EnergyMeter :: int where "EnergyMeter = 0x82"
definition ControlId :: int where "ControlId = 0x88"
definition Nav :: int where "Nav = 0x89"
definition CareSensor1 :: int where "CareSensor1 = 0x91"
definition CareSensor2 :: int where "CareSensor2 = 0x92"
definition CareSensor3 :: int where "CareSensor3 = 0x93"
definition CareSensor4 :: int where "CareSensor4 = 0x94"
definition CareSensor5 :: int where "CareSensor5 = 0x95"
definition CareSensor6 :: int where "CareSensor6 = 0x96"
definition CareSensorT :: int where "CareSensorT = 0x9A"
definition CareSensorHT :: int where "CareSensorHT = 0x9B"
definition ControlPoint :: int where "ControlPoint = 0xB2"
definition CareRelay :: int where "CareRelay = 0xB3"
definition TransceiverUart :: int where "TransceiverUart = 0xB5"
definition TransceiverUsb :: int where "TransceiverUsb = 0xB6"
definition Gsm :: int where "Gsm = 0xB7"

type_synonym recipe = "buffer \<Rightarrow> msd \<Rightarrow> error + msd"

text \<open>
  \<open>exports.gsmDecoders\<close>, an object keyed by device model, as an association list in
  the order of the source. These recipes do not assign \<open>model\<close>.
\<close>

definition gsmDecoders :: "clock \<Rightarrow> (int \<times> recipe) list" where
  "gsmDecoders clk =
   [(EnergyMeter, \<lambda>buffer msd.
       bindE (decodeAlarms buffer (-1) (-1)
                (decodeRtto buffer 0 (msd\<lparr>modelLabel := Some ''iNode Energy Meter''\<rparr>)))
         (\<lambda>msd. decodeEnergyMeter (clock_yesterday clk) (slice buffer 0 (-6)) 24 msd)),
    (CareSensor1, \<lambda>buffer msd.
       decodeMsdCareSensor buffer (Some decodeMotionSensor) (Some decodeCsrTemperature) None
         (decodeRtto buffer 0 (msd\<lparr>modelLabel := Some ''iNode Care Sensor #1''\<rparr>))),
    (CareSensor2, \<lambda>buffer msd.
       decodeMsdCareSensor buffer (Some decodeMotionSensor) (Some decodeMcp9844Temperature) None
         (decodeRtto buffer 0 (msd\<lparr>modelLabel := Some ''iNode Care Sensor #2''\<rparr>))),
    (CareSensor3, \<lambda>buffer msd.
       decodeMsdCareSensor buffer (Some decodeMotionSensor) (Some decodeSi7021Temperature)
         (Some decodeSi7021Humidity)
         (decodeRtto buffer 0 (msd\<lparr>modelLabel := Some ''iNode Care Sensor #3''\<rparr>))),
    (CareSensor4, \<lambda>buffer msd.
       bindE (decodeGsmCareSensor clk buffer (Some decodeMotionSensor)
                (Some decodeCsrTemperature) None
                (decodeRtto buffer 0 (msd\<lparr>modelLabel := Some ''iNode Care Sensor #4''\<rparr>)))
         (\<lambda>msd. Inr (decodeInput buffer 0 msd))),
    (CareSensor5, \<lambda>buffer msd.
       bindE (decodeGsmCareSensor clk buffer (Some decodeMotionSensor)
                (Some decodeCsrTemperature) (Some decodeMagneticField)
                (decodeRtto buffer 0 (msd\<lparr>modelLabel := Some ''iNode Care Sensor #5''\<rparr>)))
         (\<lambda>msd. Inr (decodeMagneticFieldDirection buffer 0 msd))),
    (CareSensor6, \<lambda>buffer msd.
       bindE (decodeGsmCareSensor clk buffer (Some decodeMotionSensor)
                (Some decodeCsrTemperature) None
                (decodeRtto buffer 0 (msd\<lparr>modelLabel := Some ''iNode Care Sensor #6''\<rparr>)))
         (\<lambda>msd. Inr (decodeOutput buffer 0 (decodeInput buffer 0 msd)))),
    (CareSensorT, \<lambda>buffer msd.
       decodeGsmCareSensor clk buffer None (Some decodeMcp9844Temperature) None
         (decodeRtto buffer 0 (msd\<lparr>modelLabel := Some ''iNode Care Sensor T''\<rparr>))),
    (CareSensorHT, \<lambda>buffer msd.
       decodeGsmCareSensor clk buffer None (Some decodeSi7021Temperature)
         (Some decodeSi7021Humidity)
         (decodeRtto buffer 0 (msd\<lparr>modelLabel := Some ''iNode Care Sensor HT''\<rparr>)))]"

text \<open>\<open>exports.msdDecoders\<close>. These recipes assign \<open>model\<close> themselves.\<close>

definition msdDecoders :: "clock \<Rightarrow> (int \<times> recipe) list" where
  "msdDecoders clk =
   [(Beacon, \<lambda>buffer msd.
       decodeAlarms buffer 0 (-1) (decodeRtto buffer 0 (msd\<lparr>model := Some Beacon, modelLabel := Some ''iNode Beacon''\<rparr>))),
    (EnergyMeter, \<lambda>buffer msd.
       bindE (decodeAlarms buffer 0 (-1)
                (decodeRtto buffer 0 (msd\<lparr>model := Some EnergyMeter, modelLabel := Some ''iNode Energy Meter''\<rparr>)))
         (\<lambda>msd. decodeEnergyMeter (clock_yesterday clk) buffer 2 msd)),
    (ControlId, \<lambda>buffer msd.
       decodeAlarms buffer 0 (-1) (decodeRtto buffer 0 (msd\<lparr>model := Some ControlId, modelLabel := Some ''iNode Control ID''\<rparr>))),
    (Nav, \<lambda>buffer msd.
       decodeAlarms buffer 0 (-1) (decodeRtto buffer 0 (msd\<lparr>model := Some Nav, modelLabel := Some ''iNode Nav''\<rparr>))),
    (CareSensor1, \<lambda>buffer msd.
       decodeMsdCareSensor buffer (Some decodeMotionSensor) (Some decodeCsrTemperature) None
         (decodeRtto buffer 0 (msd\<lparr>model := Some CareSensor1, modelLabel := Some ''iNode Care Sensor #1''\<rparr>))),
    (CareSensor2, \<lambda>buffer msd.
       decodeMsdCareSensor buffer (Some decodeMotionSensor) (Some decodeMcp9844Temperature) None
         (decodeRtto buffer 0 (msd\<lparr>model := Some CareSensor2, modelLabel := Some ''iNode Care Sensor #2''\<rparr>))),
    (CareSensor3, \<lambda>buffer msd.
       decodeMsdCareSensor buffer (Some decodeMotionSensor) (Some decodeSi7021Temperature)
         (Some decodeSi7021Humidity)
         (decodeRtto buffer 0 (msd\<lparr>model := Some CareSensor3, modelLabel := Some ''iNode Care Sensor #3''\<rparr>))),
    (CareSensor4, \<lambda>buffer msd.
       bindE (decodeMsdCareSensor buffer (Some decodeMotionSensor) (Some decodeCsrTemperature)
                None (decodeRtto buffer 0 (msd\<lparr>model := Some CareSensor4, modelLabel := Some ''iNode Care Sensor #4''\<rparr>)))
         (\<lambda>msd. Inr (decodeInput buffer 0 msd))),
    (CareSensor5, \<lambda>buffer msd.
       bindE (decodeMsdCareSensor buffer (Some decodeMotionSensor) (Some decodeCsrTemperature)
                (Some decodeMagneticField)
                (decodeRtto buffer 0 (msd\<lparr>model := Some CareSensor5, modelLabel := Some ''iNode Care Sensor #5''\<rparr>)))
         (\<lambda>msd. Inr (decodeMagneticFieldDirection buffer 0 msd))),
    (CareSensor6, \<lambda>buffer msd.
       bindE (decodeMsdCareSensor buffer (Some decodeMotionSensor) (Some decodeCsrTemperature)
                None (decodeRtto buffer 0 (msd\<lparr>model := Some CareSensor6, modelLabel := Some ''iNode Care Sensor #6''\<rparr>)))
         (\<lambda>msd. Inr (decodeOutput buffer 0 (decodeInput buffer 0 msd)))),
    (CareSensorT, \<lambda>buffer msd.
       decodeMsdCareSensor buffer None (Some decodeMcp9844Temperature) None
         (decodeRtto buffer 0 (msd\<lparr>model := Some CareSensorT, modelLabel := Some ''iNode Care Sensor T''\<rparr>))),
    (CareSensorHT, \<lambda>buffer msd.
       decodeMsdCareSensor buffer None (Some decodeSi7021Temperature)
         (Some decodeSi7021Humidity)
         (decodeRtto buffer 0 (msd\<lparr>model := Some CareSensorHT, modelLabel := Some ''iNode Care Sensor HT''\<rparr>))),
    (ControlPoint, \<lambda>buffer msd.
       decodeAlarms buffer 0 (-1) (decodeRtto buffer 0 (msd\<lparr>model := Some ControlPoint, modelLabel := Some ''iNode Control Point''\<rparr>))),
    (CareRelay, \<lambda>buffer msd.
       bindE (decodeAlarms buffer 0 (-1) (decodeRtto buffer 0 (msd\<lparr>model := Some CareRelay, modelLabel := Some ''iNode Care Relay''\<rparr>)))
         (\<lambda>msd. Inr (decodeOutput buffer 0 msd))),
    (TransceiverUart, \<lambda>buffer msd.
       decodeAlarms buffer 0 (-1)
         (decodeRtto buffer 0 (msd\<lparr>model := Some TransceiverUart, modelLabel := Some ''iNode Transceiver UART''\<rparr>))),
    (TransceiverUsb, \<lambda>buffer msd.
       decodeAlarms buffer 0 (-1)
         (decodeRtto buffer 0 (msd\<lparr>model := Some TransceiverUsb, modelLabel := Some ''iNode Transceiver USB''\<rparr>))),
    (Gsm, \<lambda>buffer msd.
       decodeAlarms buffer 0 (-1) (decodeRtto buffer 0 (msd\<lparr>model := Some Gsm, modelLabel := Some ''iNode GSM''\<rparr>)))]"

text \<open>\<open>table[deviceModel]\<close>, where the key may be \<open>undefined\<close>.\<close>

definition lookupDecoder :: "(int \<times> recipe) list \<Rightarrow> int option \<Rightarrow> recipe option" where
  "lookupDecoder table deviceModel =
     (case deviceModel of None \<Rightarrow> None | Some k \<Rightarrow> map_of table k)"

section \<open>The public entry points\<close>

definition emptyMsd :: msd where
  "emptyMsd =
     \<lparr>msd_type = None, companyIdentifier = None, model = None, modelLabel = None,
      rtto = None, alarms = None, groups = None, batteryLevel = None, batteryVoltage = None,
      position = None, temperature = None, humidity = None, magneticField = None,
      magneticFieldDirection = None, msd_input = None, msd_output = None, time = None,
      signature = None, averageUnit = None, sumUnit = None, msd_unit = None,
      msd_constant = None, average = None, msd_sum = None, lightLevel = None, weekDay = None,
      weekDayTotal = None\<rparr>"

text \<open>
  \<open>exports.decodeMsd\<close>. The optional argument \<open>msd\<close> is \<open>None\<close> when the caller
  passes nothing.
\<close>

definition decodeMsd :: "clock \<Rightarrow> buffer \<Rightarrow> msd option \<Rightarrow> error + msd" where
  "decodeMsd clk buffer msd =
     (let deviceModel = byteAt buffer 1
      in case lookupDecoder (msdDecoders clk) deviceModel of
           None \<Rightarrow> Inl (UnsupportedModel deviceModel)
         | Some deviceModelDecoder \<Rightarrow>
             bindE (case msd of
                      Some m \<Rightarrow> Inr m
                    | None \<Rightarrow>
                        bindE (readUInt16LE buffer 0) (\<lambda>c.
                          Inr (emptyMsd\<lparr>msd_type := Some ManufacturerSpecificData,
                                        companyIdentifier := Some c\<rparr>)))
               (\<lambda>msd. deviceModelDecoder buffer msd))"

text \<open>\<open>Number.prototype.toString(16)\<close> on a non-negative integer.\<close>

definition hexDigit :: "nat \<Rightarrow> char" where
  "hexDigit d = ''0123456789abcdef'' ! d"

fun toString16 :: "nat \<Rightarrow> string" where
  "toString16 n = (if n < 16 then [hexDigit n] else toString16 (n div 16) @ [hexDigit (n mod 16)])"

definition toUpperCase :: "string \<Rightarrow> string" where
  "toUpperCase s =
     map (\<lambda>c. let n = (of_char c :: nat)
              in if of_char CHR ''a'' \<le> n \<and> n \<le> of_char CHR ''z'' then char_of (n - 32) else c) s"

fun join :: "string \<Rightarrow> string list \<Rightarrow> string" where
  "join sep [] = []"
| "join sep [s] = s"
| "join sep (s # t # ts) = s @ sep @ join sep (t # ts)"

text \<open>
  The loop of \<open>decodeGsmMacAddress\<close> over the indices it visits; a missing byte is
  \<open>undefined\<close>, and \<open>undefined.toString\<close> throws.
\<close>

fun macAddressParts :: "buffer \<Rightarrow> int list \<Rightarrow> error + string list" where
  "macAddressParts buffer [] = Inr []"
| "macAddressParts buffer (i # is) =
     (case byteAt buffer i of
        None \<Rightarrow> Inl TypeError
      | Some b \<Rightarrow>
          bindE (macAddressParts buffer is) (\<lambda>macAddress.
            Inr (((if b < 0x10 then ''0'' else []) @ toUpperCase (toString16 (nat b)))
                 # macAddress)))"

definition decodeGsmMacAddress :: "buffer \<Rightarrow> error + string" where
  "decodeGsmMacAddress buffer =
     bindE (macAddressParts buffer [7, 6, 5, 4, 3, 2]) (\<lambda>macAddress.
       Inr (join '':'' macAddress))"

datatype AdvertisingReportEventType = AdvInd
datatype AdvertisingReportAddressType = Public

text \<open>
  The synthesized advertising report. \<open>localName\<close> holds the bytes
  \<open>recordData.slice(8, 24)\<close> of the entry of type \<open>LocalNameComplete\<close>; their decoding
  as text is not modelled. \<open>manufacturerData\<close> is the entry \<open>data[1]\<close>.
\<close>

record report =
  eventType :: AdvertisingReportEventType
  addressType :: AdvertisingReportAddressType
  address :: string
  report_length :: int
  localName :: buffer
  manufacturerData :: msd
  rssi :: int

definition decodeGsmDataRecord ::
  "clock \<Rightarrow> int \<Rightarrow> int option \<Rightarrow> buffer \<Rightarrow> error + report option"
where
  "decodeGsmDataRecord clk gsmTime recordType recordData =
     (let deviceModel = byteAt recordData 1
      in case lookupDecoder (gsmDecoders clk) deviceModel of
           None \<Rightarrow> Inr None
         | Some deviceModelDecoder \<Rightarrow>
             bindE (decodeGsmMacAddress recordData) (\<lambda>macAddress.
             bindE (readInt8 recordData (int (length recordData) - 4)) (\<lambda>signal.
             bindE (deviceModelDecoder recordData
                      (emptyMsd\<lparr>msd_type := Some ManufacturerSpecificData,
                                 model := deviceModel, modelLabel := None\<rparr>))
               (\<lambda>msd.
                 Inr (Some \<lparr>eventType = AdvInd, addressType = Public, address = macAddress,
                             report_length = -1, localName = slice recordData 8 24,
                             manufacturerData = msd, rssi = signal\<rparr>)))))"

text \<open>\<open>tryDecodeGsmDataRecord\<close>: the \<open>catch\<close> clause is empty.\<close>

definition tryDecodeGsmDataRecord ::
  "clock \<Rightarrow> int \<Rightarrow> int option \<Rightarrow> buffer \<Rightarrow> report list \<Rightarrow> report list"
where
  "tryDecodeGsmDataRecord clk gsmTime recordType recordData reports =
     (case decodeGsmDataRecord clk gsmTime recordType recordData of
        Inl err \<Rightarrow> reports
      | Inr None \<Rightarrow> reports
      | Inr (Some r) \<Rightarrow> reports @ [r])"

text \<open>
  The loop of \<open>exports.decodeGsmData\<close>, from the cursor \<open>i\<close> and the reports pushed
  so far. A length byte beyond the end is \<open>undefined\<close>: the end of the slice is then
  \<open>NaN\<close>, which \<open>slice\<close> reads as 0, and \<open>recordData.length !== recordLength\<close> holds.
\<close>

function scanGsmData :: "clock \<Rightarrow> int \<Rightarrow> buffer \<Rightarrow> nat \<Rightarrow> report list \<Rightarrow> report list" where
  "scanGsmData clk gsmTime gsmData i reports =
     (if i < length gsmData
      then (let recordType = byteAt gsmData (int i);
                recordLength = byteAt gsmData (int i + 1);
                recordData = slice gsmData (int i + 2)
                               (case recordLength of None \<Rightarrow> 0 | Some n \<Rightarrow> int i + 2 + n)
            in case recordLength of
                 None \<Rightarrow> reports
               | Some n \<Rightarrow>
                   if int (length recordData) \<noteq> n then reports
                   else if n < 24
                   then scanGsmData clk gsmTime gsmData (i + 2 + nat n) reports
                   else scanGsmData clk gsmTime gsmData (i + 2 + nat n)
                          (tryDecodeGsmDataRecord clk gsmTime recordType recordData reports))
      else reports)"
  by pat_completeness auto
termination
  by (relation "measure (\<lambda>(clk, gsmTime, gsmData, i, reports). length gsmData - i)") auto

definition decodeGsmData :: "clock \<Rightarrow> int \<Rightarrow> buffer \<Rightarrow> report list" where
  "decodeGsmData clk gsmTime gsmData = scanGsmData clk gsmTime gsmData 0 []"

section \<open>Definitions for stating the properties\<close>

text \<open>
  The rendering of a byte that the specification describes for the MAC address: exactly
  two uppercase hexadecimal digits, padded with a zero.
\<close>

definition twoHexDigits :: "nat \<Rightarrow> string" where
  "twoHexDigits n = [''0123456789ABCDEF'' ! (n div 16), ''0123456789ABCDEF'' ! (n mod 16)]"

text \<open>
  The framing that the scanner reads: each record is a type byte, a length byte and that
  many bytes of data.
\<close>

fun encodeRecords :: "(byte \<times> buffer) list \<Rightarrow> buffer" where
  "encodeRecords [] = []"
| "encodeRecords ((recordType, recordData) # records) =
     recordType # of_nat (length recordData) # recordData @ encodeRecords records"

text \<open>The reports of a list of complete records, decoded one after the other.\<close>

fun decodeRecords ::
  "clock \<Rightarrow> int \<Rightarrow> report list \<Rightarrow> (byte \<times> buffer) list \<Rightarrow> report list"
where
  "decodeRecords clk gsmTime reports [] = reports"
| "decodeRecords clk gsmTime reports ((recordType, recordData) # records) =
     decodeRecords clk gsmTime
       (if length recordData < 24 then reports
        else tryDecodeGsmDataRecord clk gsmTime (Some (uint recordType)) recordData reports)
       records"

text \<open>
  The label that the recipes of the source assign for each device model code; the two
  tables use the same label for a code that is in both.
\<close>

definition modelLabels :: "(int \<times> string) list" where
  "modelLabels =
     [(0x80, ''iNode Beacon''), (0x82, ''iNode Energy Meter''), (0x88, ''iNode Control ID''),
      (0x89, ''iNode Nav''), (0x91, ''iNode Care Sensor #1''), (0x92, ''iNode Care Sensor #2''),
      (0x93, ''iNode Care Sensor #3''), (0x94, ''iNode Care Sensor #4''),
      (0x95, ''iNode Care Sensor #5''), (0x96, ''iNode Care Sensor #6''),
      (0x9A, ''iNode Care Sensor T''), (0x9B, ''iNode Care Sensor HT''),
      (0xB2, ''iNode Control Point''), (0xB3, ''iNode Care Relay''),
      (0xB5, ''iNode Transceiver UART''), (0xB6, ''iNode Transceiver USB''),
      (0xB7, ''iNode GSM'')]"

section \<open>Auxiliary facts\<close>

lemmas DeviceModel_defs =
  Beacon_def EnergyMeter_def ControlId_def Nav_def CareSensor1_def CareSensor2_def
  CareSensor3_def CareSensor4_def CareSensor5_def CareSensor6_def CareSensorT_def
  CareSensorHT_def ControlPoint_def CareRelay_def TransceiverUart_def TransceiverUsb_def
  Gsm_def

lemma bindE_Inr [simp]: "bindE (Inr v) f = f v"
  by (simp add: bindE_def)

lemma bindE_Inl [simp]: "bindE (Inl e) f = Inl e"
  by (simp add: bindE_def)

lemma bindE_eq_Inr:
  "bindE m f = Inr r \<longleftrightarrow> (\<exists>v. m = Inr v \<and> f v = Inr r)"
  by (cases m) simp_all

lemma js_and_signed: "js_and a b = signed_take_bit 31 (a AND b)"
  by (simp add: js_and_def sint_sbintrunc' flip: of_int_and_eq)

lemma js_or_signed: "js_or a b = signed_take_bit 31 (a OR b)"
  by (simp add: js_or_def sint_sbintrunc' flip: of_int_or_eq)

lemma js_and_int:
  assumes "0 \<le> b" "b < 2 ^ 31"
  shows "js_and a b = a AND b"
proof -
  have "0 \<le> a AND b" using assms by simp
  moreover have "a AND b \<le> b" using assms by simp
  ultimately have "- (2 ^ 31) \<le> a AND b" "a AND b < 2 ^ 31"
    using assms by linarith+
  then have "signed_take_bit 31 (a AND b) = a AND b"
    by (rule signed_take_bit_int_eq_self)
  then show ?thesis by (simp add: js_and_signed)
qed

lemma js_shr_int:
  assumes "0 \<le> a" "a < 2 ^ 31"
  shows "js_shr a n = a div 2 ^ (n mod 32)"
proof -
  have "- (2 ^ 31) \<le> a" using assms by linarith
  then have "signed_take_bit 31 a = a"
    using assms by (intro signed_take_bit_int_eq_self)
  then show ?thesis
    by (simp add: js_shr_def sint_signed_drop_bit_eq sint_sbintrunc' drop_bit_eq_div)
qed

lemma int_and_mask_mod: "(a::int) AND (2 ^ n - 1) = a mod 2 ^ n"
  by (simp add: take_bit_eq_mod flip: take_bit_eq_mask mask_eq_exp_minus_1)


lemma js_and_31: "js_and a 31 = a mod 32"
  using int_and_mask_mod [of a 5] by (simp add: js_and_int)

lemma js_and_3: "js_and a 3 = a mod 4"
  using int_and_mask_mod [of a 2] by (simp add: js_and_int)

lemma js_and_bit:
  assumes "n < 31"
  shows "js_and a (2 ^ n) \<noteq> 0 \<longleftrightarrow> bit a n"
proof -
  have "(2::int) ^ n < 2 ^ 31" using assms by (intro power_strict_increasing) simp_all
  then have "js_and a (2 ^ n) = a AND 2 ^ n" by (intro js_and_int) simp_all
  then show ?thesis by (simp add: and_exp_eq_0_iff_not_bit)
qed

lemma readUInt16LE_range:
  assumes "readUInt16LE buffer i = Inr w"
  shows "0 \<le> w \<and> w < 65536"
proof -
  have "uint (a :: byte) < 256" for a
    using uint_bounded [of a] by simp
  then have "uint (a :: byte) + 256 * uint (b :: byte) < 65536" for a b
    using uint_bounded [of a] by (smt (verit))
  then show ?thesis
    using assms by (auto simp: readUInt16LE_def split: if_splits)
qed

section \<open>Battery level\<close>



section \<open>Motion vector\<close>

lemma js_and_0x10: "js_and a 0x10 \<noteq> 0 \<longleftrightarrow> bit a 4"
  using js_and_bit [of 4 a] by simp

lemma js_and_0x8000: "js_and a 0x8000 \<noteq> 0 \<longleftrightarrow> bit a 15"
  using js_and_bit [of 15 a] by simp

text \<open>
  C6. \<open>decodeMotionSensor\<close> succeeds wherever the 16-bit word can be read; \<open>motion\<close> is
  bit 15 of the word, and each of the three 5-bit fields at bit offsets 10, 5 and 0 is
  stored with \<open>0x1F\<close> subtracted exactly when its bit 4 is set. A field of \<open>0x10\<close>
  gives -15, a field of \<open>0x0F\<close> gives 15.
\<close>

theorem decodeMotionSensor_fields:
  assumes "readUInt16LE buffer i = Inr v"
  shows "\<exists>msd' p.
    decodeMotionSensor buffer i msd = Inr msd' \<and> position msd' = Some p \<and>
    motion p = bit v 15 \<and>
    (let fx = (v div 2 ^ 10) mod 32; fy = (v div 2 ^ 5) mod 32; fz = v mod 32
     in pos_x p = (if bit fx 4 then fx - 0x1F else fx) \<and>
        pos_y p = (if bit fy 4 then fy - 0x1F else fy) \<and>
        pos_z p = (if bit fz 4 then fz - 0x1F else fz) \<and>
        (fx = 0x10 \<longrightarrow> pos_x p = -15) \<and> (fx = 0x0F \<longrightarrow> pos_x p = 15) \<and>
        (fy = 0x10 \<longrightarrow> pos_y p = -15) \<and> (fy = 0x0F \<longrightarrow> pos_y p = 15) \<and>
        (fz = 0x10 \<longrightarrow> pos_z p = -15) \<and> (fz = 0x0F \<longrightarrow> pos_z p = 15))"
proof -
  have v: "0 \<le> v" "v < 2 ^ 31"
    using readUInt16LE_range [OF assms] by simp_all
  have b16: "bit (0x10 :: int) 4" and b15: "\<not> bit (0x0F :: int) 4"
    by (simp_all add: bit_iff_odd)
  have sx: "js_shr v 10 = v div 2 ^ 10" and sy: "js_shr v 5 = v div 2 ^ 5"
    using v by (simp_all add: js_shr_int)
  show ?thesis
    using assms b16 b15
    by (simp add: decodeMotionSensor_def Let_def sx sy js_and_31 js_and_0x10 js_and_0x8000)
qed

theorem decodeMotionSensor_fields_witness:
  "readUInt16LE [0x0F, 0xC2] 0 = Inr 0xC20F \<and>
   (\<exists>msd' p.
    decodeMotionSensor [0x0F, 0xC2] 0 emptyMsd = Inr msd' \<and> position msd' = Some p \<and>
    motion p = bit (0xC20F :: int) 15 \<and>
    (let fx = (0xC20F div 2 ^ 10) mod 32; fy = (0xC20F div 2 ^ 5) mod 32; fz = 0xC20F mod 32
     in pos_x p = (if bit fx 4 then fx - 0x1F else fx) \<and>
        pos_y p = (if bit fy 4 then fy - 0x1F else fy) \<and>
        pos_z p = (if bit fz 4 then fz - 0x1F else fz) \<and>
        (fx = 0x10 \<longrightarrow> pos_x p = -15) \<and> (fx = 0x0F \<longrightarrow> pos_x p = 15) \<and>
        (fy = 0x10 \<longrightarrow> pos_y p = -15) \<and> (fy = 0x0F \<longrightarrow> pos_y p = 15) \<and>
        (fz = 0x10 \<longrightarrow> pos_z p = -15) \<and> (fz = 0x0F \<longrightarrow> pos_z p = 15)))"
proof -
  have h: "readUInt16LE [0x0F, 0xC2] 0 = Inr 0xC20F"
    by (simp add: readUInt16LE_def)
  from h decodeMotionSensor_fields [OF h, of emptyMsd]
  show ?thesis by blast
qed

section \<open>Energy meter options\<close>

lemma readUInt16LE_ok:
  "0 \<le> i \<Longrightarrow> i + 2 \<le> int (length buffer) \<Longrightarrow> \<exists>w. readUInt16LE buffer i = Inr w"
  by (simp add: readUInt16LE_def)

lemma readUInt32LE_ok:
  "0 \<le> i \<Longrightarrow> i + 4 \<le> int (length buffer) \<Longrightarrow> \<exists>w. readUInt32LE buffer i = Inr w"
  by (simp add: readUInt32LE_def)

lemma readUInt16LE_InrD:
  "readUInt16LE buffer i = Inr w \<Longrightarrow> 0 \<le> i \<and> i + 2 \<le> int (length buffer)"
  by (simp add: readUInt16LE_def split: if_splits)

lemma js_and_0x3FFF: "js_and a 0x3FFF = a mod 2 ^ 14"
  using int_and_mask_mod [of a 14] by (simp add: js_and_int)

lemma energy_unit_bits:
  assumes "0 \<le> options" "options < 65536"
  shows "js_and (js_shr options 14) 3 = options div 2 ^ 14"
proof -
  have "options div 2 ^ 14 < 4" using assms by simp
  moreover have "0 \<le> options div 2 ^ 14" using assms by simp
  ultimately show ?thesis using assms by (simp add: js_shr_int js_and_3)
qed

lemma decodeEnergyMeter_result:
  assumes "0 \<le> i" and "readUInt16LE buffer (i + 6) = Inr options"
  shows "\<exists>msd'.
    decodeEnergyMeter yesterday buffer i msd = Inr msd' \<and>
    msd_unit msd' = Some (js_and (js_shr options 14) 3) \<and>
    msd_constant msd' =
      Some (if js_and options 0x3FFF \<noteq> 0 then js_and options 0x3FFF
            else if js_and (js_shr options 14) 3 = 0 \<or> js_and (js_shr options 14) 3 = 1
            then 1000 else 1) \<and>
    averageUnit msd' =
      Some (if js_and (js_shr options 14) 3 = 0 then ''kWh''
            else if js_and (js_shr options 14) 3 = 1 then [CHR ''m'', CHR 0xC2, CHR 0xB3]
            else ''cnt'') \<and>
    sumUnit msd' =
      Some (if js_and (js_shr options 14) 3 = 0 then ''kW''
            else if js_and (js_shr options 14) 3 = 1 then [CHR ''m'', CHR 0xC2, CHR 0xB3]
            else ''cnt'')"
proof -
  have len: "i + 8 \<le> int (length buffer)"
    using readUInt16LE_InrD [OF assms(2)] by simp
  obtain a where a: "readUInt16LE buffer i = Inr a"
    using readUInt16LE_ok [of i buffer] assms(1) len by auto
  obtain s where s: "readUInt32LE buffer (i + 2) = Inr s"
    using readUInt32LE_ok [of "i + 2" buffer] assms(1) len by auto
  show ?thesis
  proof (cases "i + 11 \<le> int (length buffer)")
    case True
    obtain b where b: "readUInt16LE buffer (i + 8) = Inr b"
      using readUInt16LE_ok [of "i + 8" buffer] assms(1) True by auto
    obtain d where d: "readUInt16LE buffer (i + 9) = Inr d"
      using readUInt16LE_ok [of "i + 9" buffer] assms(1) True by auto
    show ?thesis
      using True
      by (simp add: decodeEnergyMeter_def decodeBatteryLevel_def assms(2) a s b d Let_def)
  next
    case False
    then show ?thesis
      by (simp add: decodeEnergyMeter_def assms(2) a s Let_def)
  qed
qed

text \<open>
  C8. \<open>decodeEnergyMeter\<close> succeeds wherever the options word at \<open>i + 6\<close> can be read
  (for an offset that is not negative). The stored unit is \<open>(options >> 14) & 3\<close>, the
  two top bits of the word; the stored constant is \<open>options & 0x3FFF\<close>, the low 14 bits,
  unless that is 0, in which case it is 1000 for the units 0 and 1 and 1 for the others.
  Options \<open>0x0000\<close> give unit 0, constant 1000 and the labels kWh and kW; options
  \<open>0xC001\<close> give unit 3, constant 1 and the labels cnt and cnt.
\<close>

theorem decodeEnergyMeter_options:
  assumes "0 \<le> i" and "readUInt16LE buffer (i + 6) = Inr options"
  shows "\<exists>msd'.
    decodeEnergyMeter yesterday buffer i msd = Inr msd' \<and>
    (let u = js_and (js_shr options 14) 3; c = js_and options 0x3FFF
     in u = options div 2 ^ 14 \<and> c = options mod 2 ^ 14 \<and>
        msd_unit msd' = Some u \<and>
        msd_constant msd' = Some (if c \<noteq> 0 then c else if u = 0 \<or> u = 1 then 1000 else 1) \<and>
        (options = 0x0000 \<longrightarrow>
           msd_unit msd' = Some 0 \<and> msd_constant msd' = Some 1000 \<and>
           averageUnit msd' = Some ''kWh'' \<and> sumUnit msd' = Some ''kW'') \<and>
        (options = 0xC001 \<longrightarrow>
           msd_unit msd' = Some 3 \<and> msd_constant msd' = Some 1 \<and>
           averageUnit msd' = Some ''cnt'' \<and> sumUnit msd' = Some ''cnt''))"
proof -
  have o: "0 \<le> options" "options < 65536"
    using readUInt16LE_range [OF assms(2)] by simp_all
  have u: "js_and (js_shr options 14) 3 = options div 2 ^ 14"
    using o by (rule energy_unit_bits)
  have c: "js_and options 0x3FFF = options mod 2 ^ 14"
    by (rule js_and_0x3FFF)
  obtain msd' where m: "decodeEnergyMeter yesterday buffer i msd = Inr msd'"
    and mu: "msd_unit msd' = Some (options div 2 ^ 14)"
    and mc: "msd_constant msd' =
      Some (if options mod 2 ^ 14 \<noteq> 0 then options mod 2 ^ 14
            else if options div 2 ^ 14 = 0 \<or> options div 2 ^ 14 = 1 then 1000 else 1)"
    and ma: "averageUnit msd' =
      Some (if options div 2 ^ 14 = 0 then ''kWh''
            else if options div 2 ^ 14 = 1 then [CHR ''m'', CHR 0xC2, CHR 0xB3]
            else ''cnt'')"
    and ms: "sumUnit msd' =
      Some (if options div 2 ^ 14 = 0 then ''kW''
            else if options div 2 ^ 14 = 1 then [CHR ''m'', CHR 0xC2, CHR 0xB3]
            else ''cnt'')"
    using decodeEnergyMeter_result [OF assms, of yesterday msd] unfolding u c by blast
  have z: "options = 0x0000 \<longrightarrow>
           msd_unit msd' = Some 0 \<and> msd_constant msd' = Some 1000 \<and>
           averageUnit msd' = Some ''kWh'' \<and> sumUnit msd' = Some ''kW''"
    using mu mc ma ms by simp
  have k: "options = 0xC001 \<longrightarrow>
           msd_unit msd' = Some 3 \<and> msd_constant msd' = Some 1 \<and>
           averageUnit msd' = Some ''cnt'' \<and> sumUnit msd' = Some ''cnt''"
    using mu mc ma ms by simp
  show ?thesis
    unfolding Let_def u c using m mu mc z k by blast
qed

theorem decodeEnergyMeter_options_witness:
  "(0::int) \<le> 0 \<and> readUInt16LE [0, 0, 0, 0, 0, 0, 0x01, 0xC0] (0 + 6) = Inr 0xC001 \<and>
   (\<exists>msd'.
    decodeEnergyMeter 3 [0, 0, 0, 0, 0, 0, 0x01, 0xC0] 0 emptyMsd = Inr msd' \<and>
    (let u = js_and (js_shr 0xC001 14) 3; c = js_and 0xC001 0x3FFF
     in u = 0xC001 div 2 ^ 14 \<and> c = 0xC001 mod 2 ^ 14 \<and>
        msd_unit msd' = Some u \<and>
        msd_constant msd' = Some (if c \<noteq> 0 then c else if u = 0 \<or> u = 1 then 1000 else 1) \<and>
        ((0xC001 :: int) = 0x0000 \<longrightarrow>
           msd_unit msd' = Some 0 \<and> msd_constant msd' = Some 1000 \<and>
           averageUnit msd' = Some ''kWh'' \<and> sumUnit msd' = Some ''kW'') \<and>
        ((0xC001 :: int) = 0xC001 \<longrightarrow>
           msd_unit msd' = Some 3 \<and> msd_constant msd' = Some 1 \<and>
           averageUnit msd' = Some ''cnt'' \<and> sumUnit msd' = Some ''cnt'')))"
proof -
  have h0: "(0::int) \<le> 0" by simp
  have h: "readUInt16LE [0, 0, 0, 0, 0, 0, 0x01, 0xC0] (0 + 6) = Inr 0xC001"
    by (simp add: readUInt16LE_def)
  from h0 h decodeEnergyMeter_options [OF h0 h, of 3 emptyMsd]
  show ?thesis by blast
qed

section \<open>The two versions of the alarm decoder\<close>

lemma bit_js_shl_13: "bit (js_shl b 13) 15 \<longleftrightarrow> bit b 2"
  by (simp add: js_shl_def bit_simps)

lemma bit_js_and: "n < 31 \<Longrightarrow> bit (js_and a b) n \<longleftrightarrow> bit a n \<and> bit b n"
  by (simp add: js_and_signed bit_simps min_def)

lemma bit_js_or: "n < 31 \<Longrightarrow> bit (js_or a b) n \<longleftrightarrow> bit a n \<or> bit b n"
  by (simp add: js_or_signed bit_simps min_def)

lemma bit15_0x8000: "bit (0x8000 :: int) 15"
  by (simp add: bit_iff_odd)

lemma bit15_0xC000: "bit (0xC000 :: int) 15"
  by (simp add: bit_iff_odd)

lemma lowBattery_bit:
  "js_and (js_or w (js_and (js_shl b 13) 0x8000)) 0x8000 \<noteq> 0 \<longleftrightarrow> bit b 2 \<or> bit w 15"
  by (auto simp add: js_and_0x8000 bit_js_or bit_js_and bit_js_shl_13 bit15_0x8000)

lemma legacy_lowBattery_bit:
  "js_and (js_or w (js_and (js_shl b 13) 0xC000)) 0x8000 \<noteq> 0 \<longleftrightarrow> bit b 2 \<or> bit w 15"
  by (auto simp add: js_and_0x8000 bit_js_or bit_js_and bit_js_shl_13 bit15_0xC000)

text \<open>
  C10. For every buffer and every pair of offsets, the \<open>decodeAlarms\<close> of the older
  module (mask \<open>0xC000\<close>) and the one of the current module (mask \<open>0x8000\<close>) throw
  the same error or both succeed, and then their \<open>lowBattery\<close> flags are equal: bit 2 of
  the battery byte or bit 15 of the extended word. The battery byte counts as 0 when its
  offset is -1 or outside the buffer, the extended word as 0 when its offset is -1.
\<close>

theorem decodeAlarms_lowBattery_agree:
  "(let b = (if batteryI = -1 then 0 else ToInt32 (byteAt buffer batteryI))
    in case (if extendedI = -1 then Inr 0 else readUInt16LE buffer extendedI) of
         Inl e \<Rightarrow>
           decodeAlarms buffer batteryI extendedI msd = Inl e \<and>
           legacy_decodeAlarms buffer batteryI extendedI = Inl e
       | Inr w \<Rightarrow>
           (\<exists>m a l. decodeAlarms buffer batteryI extendedI msd = Inr m \<and>
              alarms m = Some a \<and>
              legacy_decodeAlarms buffer batteryI extendedI = Inr l \<and>
              lowBattery a = l_lowBattery l \<and>
              lowBattery a = (bit b 2 \<or> bit w 15)))"
proof (cases "if extendedI = -1 then Inr 0 else readUInt16LE buffer extendedI")
  case (Inl e)
  show ?thesis
    unfolding decodeAlarms_def legacy_decodeAlarms_def Let_def Inl by simp
next
  case (Inr w)
  show ?thesis
    unfolding decodeAlarms_def legacy_decodeAlarms_def Let_def Inr
    by (simp add: lowBattery_bit legacy_lowBattery_bit)
qed

theorem decodeAlarms_lowBattery_agree_witness:
  "\<exists>m a l. decodeAlarms [0x04, 0x00, 0x80] 0 1 emptyMsd = Inr m \<and>
      alarms m = Some a \<and>
      legacy_decodeAlarms [0x04, 0x00, 0x80] 0 1 = Inr l \<and>
      lowBattery a = l_lowBattery l \<and>
      lowBattery a = (bit (4 :: int) 2 \<or> bit (0x8000 :: int) 15)"
proof -
  have b: "ToInt32 (byteAt [0x04, 0x00, 0x80] 0) = 4"
    by (simp add: ToInt32_def byteAt_def)
  have w: "readUInt16LE [0x04, 0x00, 0x80] 1 = Inr 0x8000"
    by (simp add: readUInt16LE_def)
  show ?thesis
    using decodeAlarms_lowBattery_agree [of 0 "[0x04, 0x00, 0x80]" 1 emptyMsd]
    by (simp add: b w)
qed

section \<open>Temperature clamping\<close>

lemma Math_round_of_int [simp]: "Math_round (of_int n) = n"
  by (simp add: Math_round_def) linarith

lemma clamp_m30_70_range: "- 30 \<le> clamp_m30_70 v \<and> clamp_m30_70 v \<le> 70"
  by (simp add: clamp_m30_70_def)

lemma rounded_range:
  assumes "- 30 \<le> v" "v \<le> (70 :: rat)"
  shows "- 30 \<le> (of_int (Math_round (v * 100)) / 100 :: rat) \<and>
         (of_int (Math_round (v * 100)) / 100 :: rat) \<le> 70"
proof -
  have "(- 3000 :: int) \<le> Math_round (v * 100)"
    unfolding Math_round_def using assms by (simp add: le_floor_iff)
  moreover have "Math_round (v * 100) \<le> (7000 :: int)"
    unfolding Math_round_def using assms by (simp add: floor_le_iff)
  ultimately have "(of_int (- 3000) :: rat) \<le> of_int (Math_round (v * 100))"
    and "(of_int (Math_round (v * 100)) :: rat) \<le> of_int 7000"
    by (simp_all only: of_int_le_iff)
  then show ?thesis by simp
qed

lemma stored_temperature:
  "- 30 \<le> (of_int (Math_round (clamp_m30_70 v * 100)) / 100 :: rat) \<and>
   (of_int (Math_round (clamp_m30_70 v * 100)) / 100 :: rat) \<le> 70 \<and>
   (v < - 30 \<longrightarrow> (of_int (Math_round (clamp_m30_70 v * 100)) / 100 :: rat) = - 30) \<and>
   (v > 70 \<longrightarrow> (of_int (Math_round (clamp_m30_70 v * 100)) / 100 :: rat) = 70)"
proof -
  have a: "v < - 30 \<Longrightarrow> clamp_m30_70 v * 100 = of_int (- 3000)"
    by (simp add: clamp_m30_70_def)
  have b: "v > 70 \<Longrightarrow> clamp_m30_70 v * 100 = of_int 7000"
    by (simp add: clamp_m30_70_def)
  have "v < - 30 \<Longrightarrow> (of_int (Math_round (clamp_m30_70 v * 100)) / 100 :: rat) = - 30"
    by (simp only: a Math_round_of_int)
  moreover have "v > 70 \<Longrightarrow> (of_int (Math_round (clamp_m30_70 v * 100)) / 100 :: rat) = 70"
    by (simp only: b Math_round_of_int)
  ultimately show ?thesis
    using rounded_range [of "clamp_m30_70 v"] clamp_m30_70_range [of v] by blast
qed

text \<open>
  C7, as stated, fails: \<open>decodeMcp9844Temperature\<close> indexes the buffer without a check,
  and where the byte at the offset is missing it stores \<open>NaN\<close>, which is not in
  \<open>[-30, 70]\<close>. The GSM scanner reaches this with a record of 26 bytes of model
  \<open>0x9A\<close>, whose temperature bytes would be at the indices 28 and 29.
\<close>

theorem temperature_NaN_on_short_buffer:
  "decodeMcp9844Temperature [] 0 emptyMsd = Inr (emptyMsd\<lparr>temperature := Some NaN\<rparr>) \<and>
   map (temperature \<circ> manufacturerData)
     (decodeGsmData \<lparr>clock_now = 0, clock_yesterday = 0\<rparr> 0
        ([0x01, 26, 0x00, 0x9A] @ replicate 24 0x00)) = [Some NaN]"
proof -
  have "decodeMcp9844Temperature [] 0 emptyMsd = Inr (emptyMsd\<lparr>temperature := Some NaN\<rparr>)"
    by (simp add: decodeMcp9844Temperature_def mcp9844Value_def byteAt_def)
  moreover have "map (temperature \<circ> manufacturerData)
     (decodeGsmData \<lparr>clock_now = 0, clock_yesterday = 0\<rparr> 0
        ([0x01, 26, 0x00, 0x9A] @ replicate 24 0x00)) = [Some NaN]"
    by code_simp
  ultimately show ?thesis by simp
qed

text \<open>
  C7, amended. Where the 16-bit read at the offset succeeds, the CSR and the Si7021
  decoder store exactly -30 for a value below -30 before the clamp, exactly 70 for a value
  above 70, and always a temperature in \<open>[-30, 70]\<close>; the MCP9844 decoder does the same
  where the byte at the offset exists.
\<close>

theorem temperature_clamped:
  assumes "readUInt16LE buffer i = Inr raw" and "byteAt buffer' i' = Some b1"
  shows "(\<exists>m t. decodeCsrTemperature buffer i msd = Inr m \<and> temperature m = Some (Num t) \<and>
            - 30 \<le> t \<and> t \<le> 70 \<and>
            (csrValue raw < - 30 \<longrightarrow> t = - 30) \<and> (csrValue raw > 70 \<longrightarrow> t = 70)) \<and>
         (\<exists>m t. decodeSi7021Temperature buffer i msd = Inr m \<and> temperature m = Some (Num t) \<and>
            - 30 \<le> t \<and> t \<le> 70 \<and>
            (si7021TemperatureValue raw < - 30 \<longrightarrow> t = - 30) \<and>
            (si7021TemperatureValue raw > 70 \<longrightarrow> t = 70)) \<and>
         (\<exists>m v t. decodeMcp9844Temperature buffer' i' msd = Inr m \<and>
            mcp9844Value (Some b1) (byteAt buffer' (i' + 1)) = Num v \<and>
            temperature m = Some (Num t) \<and>
            - 30 \<le> t \<and> t \<le> 70 \<and> (v < - 30 \<longrightarrow> t = - 30) \<and> (v > 70 \<longrightarrow> t = 70))"
proof (intro conjI)
  show "\<exists>m t. decodeCsrTemperature buffer i msd = Inr m \<and> temperature m = Some (Num t) \<and>
            - 30 \<le> t \<and> t \<le> 70 \<and>
            (csrValue raw < - 30 \<longrightarrow> t = - 30) \<and> (csrValue raw > 70 \<longrightarrow> t = 70)"
    using assms(1) by (simp add: decodeCsrTemperature_def Let_def)
next
  show "\<exists>m t. decodeSi7021Temperature buffer i msd = Inr m \<and> temperature m = Some (Num t) \<and>
            - 30 \<le> t \<and> t \<le> 70 \<and>
            (si7021TemperatureValue raw < - 30 \<longrightarrow> t = - 30) \<and>
            (si7021TemperatureValue raw > 70 \<longrightarrow> t = 70)"
  proof -
    let ?t = "of_int (Math_round (clamp_m30_70 (si7021TemperatureValue raw) * 100)) / 100 :: rat"
    have "decodeSi7021Temperature buffer i msd = Inr (msd\<lparr>temperature := Some (Num ?t)\<rparr>)"
      using assms(1) by (simp add: decodeSi7021Temperature_def)
    moreover have "temperature (msd\<lparr>temperature := Some (Num ?t)\<rparr>) = Some (Num ?t)"
      by simp
    ultimately show ?thesis
      using stored_temperature [of "si7021TemperatureValue raw"] by blast
  qed
next
  obtain v where v: "mcp9844Value (Some b1) (byteAt buffer' (i' + 1)) = Num v"
    by (simp add: mcp9844Value_def Let_def)
  show "\<exists>m v t. decodeMcp9844Temperature buffer' i' msd = Inr m \<and>
            mcp9844Value (Some b1) (byteAt buffer' (i' + 1)) = Num v \<and>
            temperature m = Some (Num t) \<and>
            - 30 \<le> t \<and> t \<le> 70 \<and> (v < - 30 \<longrightarrow> t = - 30) \<and> (v > 70 \<longrightarrow> t = 70)"
  proof -
    let ?t = "of_int (Math_round (clamp_m30_70 v * 100)) / 100 :: rat"
    have "decodeMcp9844Temperature buffer' i' msd = Inr (msd\<lparr>temperature := Some (Num ?t)\<rparr>)"
      using assms(2) v by (simp add: decodeMcp9844Temperature_def)
    moreover have "temperature (msd\<lparr>temperature := Some (Num ?t)\<rparr>) = Some (Num ?t)"
      by simp
    ultimately show ?thesis
      using v stored_temperature [of v] by blast
  qed
qed

theorem temperature_clamped_witness:
  "readUInt16LE [0x64, 0x00] 0 = Inr 0x64 \<and> byteAt [0x00, 0x1E] 0 = Some 0 \<and>
   (\<exists>m. decodeCsrTemperature [0x64, 0x00] 0 emptyMsd = Inr m \<and>
        temperature m = Some (Num 70)) \<and>
   (\<exists>m. decodeSi7021Temperature [0x64, 0x00] 0 emptyMsd = Inr m \<and>
        temperature m = Some (Num (- 30))) \<and>
   (\<exists>m. decodeMcp9844Temperature [0x00, 0x1E] 0 emptyMsd = Inr m \<and>
        temperature m = Some (Num (- 30)))"
proof -
  have h1: "readUInt16LE [0x64, 0x00] 0 = Inr 0x64"
    by (simp add: readUInt16LE_def)
  have h2: "byteAt [0x00, 0x1E] 0 = Some 0"
    by (simp add: byteAt_def)
  have c: "csrValue 0x64 > 70"
    by (simp add: csrValue_def)
  have s: "si7021TemperatureValue 0x64 < - 30"
    by (simp add: si7021TemperatureValue_def)
  have v: "mcp9844Value (Some 0) (byteAt [0x00, 0x1E] (0 + 1)) = Num (- 32)"
    by (simp add: mcp9844Value_def byteAt_def ToInt32_def js_and_def)
  from temperature_clamped [OF h1 h2, of emptyMsd] h1 h2 c s v
  show ?thesis by auto
qed

section \<open>MAC address\<close>

declare toString16.simps [simp del]

lemma lt16_cases:
  "(d::nat) < 16 \<Longrightarrow> d = 0 \<or> d = 1 \<or> d = 2 \<or> d = 3 \<or> d = 4 \<or> d = 5 \<or> d = 6 \<or> d = 7 \<or>
     d = 8 \<or> d = 9 \<or> d = 10 \<or> d = 11 \<or> d = 12 \<or> d = 13 \<or> d = 14 \<or> d = 15"
  by arith

lemma toUpperCase_hexDigit:
  assumes "d < 16"
  shows "toUpperCase [hexDigit d] = [''0123456789ABCDEF'' ! d]"
  using lt16_cases [OF assms] by (auto simp: toUpperCase_def hexDigit_def Let_def char_of_def bit_iff_odd)

lemma toUpperCase_append: "toUpperCase (s @ t) = toUpperCase s @ toUpperCase t"
  by (simp add: toUpperCase_def)

lemma hex_byte:
  assumes "n < 256"
  shows "(if int n < 0x10 then ''0'' else []) @ toUpperCase (toString16 n) = twoHexDigits n"
proof (cases "n < 16")
  case True
  then show ?thesis
    by (simp add: toString16.simps [of n] toUpperCase_hexDigit twoHexDigits_def)
next
  case False
  have d: "n div 16 < 16" using assms by simp
  have m: "n mod 16 < 16" by simp
  have "toString16 n = toString16 (n div 16) @ [hexDigit (n mod 16)]"
    using False by (simp add: toString16.simps [of n])
  also have "toString16 (n div 16) = [hexDigit (n div 16)]"
    using d by (simp add: toString16.simps [of "n div 16"])
  finally have "toUpperCase (toString16 n) =
      toUpperCase [hexDigit (n div 16)] @ toUpperCase [hexDigit (n mod 16)]"
    by (simp only: toUpperCase_append)
  then have "toUpperCase (toString16 n) = twoHexDigits n"
    by (simp only: toUpperCase_hexDigit [OF d] toUpperCase_hexDigit [OF m] twoHexDigits_def
        append.simps)
  then show ?thesis using False by simp
qed

lemma byteAt_in_range:
  "i < length buffer \<Longrightarrow> byteAt buffer (int i) = Some (int (unat (buffer ! i)))"
  by (simp add: byteAt_def)

lemma unat_byte_lt: "unat (b :: byte) < 256"
  using unsigned_less [of b] by simp

lemma macAddressParts_ok:
  assumes "\<forall>i \<in> set is. i < length buffer"
  shows "macAddressParts buffer (map int is) = Inr (map (\<lambda>i. twoHexDigits (unat (buffer ! i))) is)"
  using assms
proof (induction "is")
  case Nil
  then show ?case by simp
next
  case (Cons i "is")
  then show ?case
    using hex_byte [OF unat_byte_lt, of "buffer ! i"]
    by (simp add: byteAt_in_range)
qed

text \<open>
  C4. For a record of at least eight bytes (every record that the scanner decodes has at
  least 24), \<open>decodeGsmMacAddress\<close> returns the bytes at the indices 7 down to 2, in that
  order, each as exactly two uppercase hexadecimal digits, joined with colons. The bytes
  \<open>0x01 .. 0x06\<close> at the indices 2 to 7 give \<open>06:05:04:03:02:01\<close>.
\<close>

theorem decodeGsmMacAddress_format:
  assumes "8 \<le> length buffer"
  shows "decodeGsmMacAddress buffer =
           Inr (join '':'' (map (\<lambda>i. twoHexDigits (unat (buffer ! i))) [7, 6, 5, 4, 3, 2])) \<and>
         (take 6 (drop 2 buffer) = [0x01, 0x02, 0x03, 0x04, 0x05, 0x06] \<longrightarrow>
            decodeGsmMacAddress buffer = Inr ''06:05:04:03:02:01'')"
proof -
  have "\<forall>i \<in> set [7, 6, 5, 4, 3, 2 :: nat]. i < length buffer"
    using assms by simp
  from macAddressParts_ok [OF this]
  have p: "macAddressParts buffer [7, 6, 5, 4, 3, 2] =
             Inr (map (\<lambda>i. twoHexDigits (unat (buffer ! i))) [7, 6, 5, 4, 3, 2])"
    by simp
  then have g: "decodeGsmMacAddress buffer =
           Inr (join '':'' (map (\<lambda>i. twoHexDigits (unat (buffer ! i))) [7, 6, 5, 4, 3, 2]))"
    by (simp add: decodeGsmMacAddress_def)
  have "decodeGsmMacAddress buffer = Inr ''06:05:04:03:02:01''"
    if t: "take 6 (drop 2 buffer) = [0x01, 0x02, 0x03, 0x04, 0x05, 0x06]"
  proof -
    have n: "buffer ! (2 + k) = [0x01, 0x02, 0x03, 0x04, 0x05, 0x06 :: byte] ! k" if "k < 6" for k
    proof -
      have "take 6 (drop 2 buffer) ! k = buffer ! (2 + k)"
        using that assms by simp
      then show ?thesis using t by simp
    qed
    have "buffer ! 2 = 1" "buffer ! 3 = 2" "buffer ! 4 = 3" "buffer ! 5 = 4" "buffer ! 6 = 5"
      "buffer ! 7 = 6"
      using n [of 0] n [of 1] n [of 2] n [of 3] n [of 4] n [of 5] by simp_all
    then show ?thesis
      by (simp add: g twoHexDigits_def)
  qed
  with g show ?thesis by blast
qed

theorem decodeGsmMacAddress_format_witness:
  "8 \<le> length [0x00, 0x91, 0x01, 0x02, 0x03, 0x04, 0x05, 0x06 :: byte] \<and>
   decodeGsmMacAddress [0x00, 0x91, 0x01, 0x02, 0x03, 0x04, 0x05, 0x06] =
     Inr ''06:05:04:03:02:01''"
proof -
  have h: "8 \<le> length [0x00, 0x91, 0x01, 0x02, 0x03, 0x04, 0x05, 0x06 :: byte]"
    by simp
  have t: "take 6 (drop 2 [0x00, 0x91, 0x01, 0x02, 0x03, 0x04, 0x05, 0x06 :: byte]) =
             [0x01, 0x02, 0x03, 0x04, 0x05, 0x06]"
    by simp
  from decodeGsmMacAddress_format [OF h] t
  have "decodeGsmMacAddress [0x00, 0x91, 0x01, 0x02, 0x03, 0x04, 0x05, 0x06] =
          Inr ''06:05:04:03:02:01''"
    by blast
  with h show ?thesis by blast
qed

section \<open>The GSM record scanner\<close>

declare scanGsmData.simps [simp del]

lemma lookupDecoder_None_iff:
  "lookupDecoder table k = None \<longleftrightarrow> k \<notin> Some ` fst ` set table"
  by (cases k) (auto simp: lookupDecoder_def map_of_eq_None_iff)

lemma scanGsmData_step:
  assumes "i < length gsmData"
    and "byteAt gsmData (int i + 1) = Some (int (length recordData))"
    and "slice gsmData (int i + 2) (int i + 2 + int (length recordData)) = recordData"
  shows "scanGsmData clk gsmTime gsmData i reports =
           scanGsmData clk gsmTime gsmData (i + 2 + length recordData)
             (if length recordData < 24 then reports
              else tryDecodeGsmDataRecord clk gsmTime (byteAt gsmData (int i)) recordData reports)"
  using assms by (subst scanGsmData.simps) (simp add: Let_def)

lemma byteAt_SomeD:
  "byteAt buffer i = Some n \<Longrightarrow> 0 \<le> i \<and> i < int (length buffer) \<and> 0 \<le> n \<and> n < 256"
  using uint_bounded [of "buffer ! nat i"] by (auto simp: byteAt_def split: if_splits)

lemma length_slice:
  "0 \<le> s \<Longrightarrow> 0 \<le> e \<Longrightarrow>
   int (length (slice buffer s e)) = max 0 (min e (int (length buffer)) - min s (int (length buffer)))"
  by (auto simp: slice_def Let_def min_def max_def)

lemma scanGsmData_truncated:
  assumes "i < length gsmData"
    and "byteAt gsmData (int i + 1) = Some n"
    and "int (length gsmData) - (int i + 2) < n"
  shows "scanGsmData clk gsmTime gsmData i reports = reports"
proof -
  have n: "0 \<le> n" "int i + 2 \<le> int (length gsmData)"
    using byteAt_SomeD [OF assms(2)] by simp_all
  have "int (length (slice gsmData (int i + 2) (int i + 2 + n))) \<noteq> n"
    using assms(3) n by (simp add: length_slice min_def max_def)
  then show ?thesis
    using assms by (subst scanGsmData.simps) (simp add: Let_def)
qed


lemma slice_middle:
  "slice (xs @ ys @ zs) (int (length xs)) (int (length xs) + int (length ys)) = ys"
  by (simp add: slice_def Let_def)

lemma byteAt_append_hd: "byteAt (xs @ b # ys) (int (length xs)) = Some (uint b)"
  by (simp add: byteAt_def)

lemma byteAt_append_snd: "byteAt (xs @ a # b # ys) (int (length xs) + 1) = Some (uint b)"
  by (simp add: byteAt_def nat_add_distrib nth_append)

lemma slice_record:
  "slice (xs @ a # b # ys @ zs) (int (length xs) + 2) (int (length xs) + 2 + int (length ys)) = ys"
  by (simp add: slice_def Let_def nat_add_distrib)

lemma scanGsmData_end:
  "length gsmData \<le> i \<Longrightarrow> scanGsmData clk gsmTime gsmData i reports = reports"
  by (subst scanGsmData.simps) simp

lemma uint_length_byte:
  "n < 256 \<Longrightarrow> uint (of_nat n :: byte) = int n"
  by (simp add: uint_nat unat_of_nat)

lemma scanGsmData_records:
  assumes "\<forall>r \<in> set records. length (snd r) < 256"
  shows "scanGsmData clk gsmTime (pre @ encodeRecords records @ rest) (length pre) reports =
         scanGsmData clk gsmTime (pre @ encodeRecords records @ rest)
           (length pre + length (encodeRecords records))
           (decodeRecords clk gsmTime reports records)"
  using assms
proof (induction records arbitrary: pre reports)
  case Nil
  then show ?case by simp
next
  case (Cons r records)
  obtain ty d where r: "r = (ty, d)" by (cases r)
  let ?L = "of_nat (length d) :: byte"
  let ?B = "pre @ encodeRecords (r # records) @ rest"
  let ?pre' = "pre @ ty # ?L # d"
  have d: "length d < 256" using Cons.prems r by simp
  have B: "?B = ?pre' @ encodeRecords records @ rest"
    by (simp add: r)
  have i: "length pre < length ?B" by (simp add: r)
  have ty: "byteAt ?B (int (length pre)) = Some (uint ty)"
    unfolding r encodeRecords.simps append_Cons by (rule byteAt_append_hd)
  have "byteAt ?B (int (length pre) + 1) = Some (uint ?L)"
    unfolding r encodeRecords.simps append_Cons by (rule byteAt_append_snd)
  then have len: "byteAt ?B (int (length pre) + 1) = Some (int (length d))"
    using d by (simp only: uint_length_byte)
  have sl: "slice ?B (int (length pre) + 2) (int (length pre) + 2 + int (length d)) = d"
    unfolding r encodeRecords.simps append_Cons append_assoc by (rule slice_record)
  have "scanGsmData clk gsmTime ?B (length pre) reports =
        scanGsmData clk gsmTime ?B (length pre + 2 + length d)
          (if length d < 24 then reports
           else tryDecodeGsmDataRecord clk gsmTime (Some (uint ty)) d reports)"
    using scanGsmData_step [OF i len sl, of clk gsmTime reports] by (simp only: ty)
  also have "length pre + 2 + length d = length ?pre'" by simp
  also have "scanGsmData clk gsmTime ?B (length ?pre')
          (if length d < 24 then reports
           else tryDecodeGsmDataRecord clk gsmTime (Some (uint ty)) d reports) =
        scanGsmData clk gsmTime ?B (length ?pre' + length (encodeRecords records))
          (decodeRecords clk gsmTime
            (if length d < 24 then reports
             else tryDecodeGsmDataRecord clk gsmTime (Some (uint ty)) d reports) records)"
    unfolding B using Cons.prems by (intro Cons.IH) simp
  finally show ?case
    by (simp add: r add.assoc)
qed

lemma decodeGsmData_records:
  assumes "\<forall>r \<in> set records. length (snd r) < 256"
  shows "decodeGsmData clk gsmTime (encodeRecords records) = decodeRecords clk gsmTime [] records"
  using scanGsmData_records [OF assms, of clk gsmTime "[]" "[]" "[]"]
  by (simp add: decodeGsmData_def scanGsmData_end)

lemma decodeGsmData_truncated:
  assumes "\<forall>r \<in> set records. length (snd r) < 256" and "length partial < unat len"
  shows "decodeGsmData clk gsmTime (encodeRecords records @ [ty, len] @ partial) =
         decodeRecords clk gsmTime [] records"
proof -
  let ?B = "encodeRecords records @ [ty, len] @ partial"
  let ?i = "length (encodeRecords records)"
  have i: "?i < length ?B" by simp
  have n: "byteAt ?B (int ?i + 1) = Some (uint len)"
    unfolding append_Cons append_Nil by (rule byteAt_append_snd)
  have "int (length partial) < int (unat len)"
    using assms(2) by (simp only: of_nat_less_iff)
  then have "int (length partial) < uint len"
    by (simp only: uint_nat)
  then have t: "int (length ?B) - (int ?i + 2) < uint len"
    by simp
  have "scanGsmData clk gsmTime ?B ?i (decodeRecords clk gsmTime [] records) =
          decodeRecords clk gsmTime [] records"
    using i n t by (rule scanGsmData_truncated)
  then show ?thesis
    using scanGsmData_records [OF assms(1), of clk gsmTime "[]" "[ty, len] @ partial" "[]"]
    by (simp add: decodeGsmData_def)
qed

lemma decodeRecords_append:
  "decodeRecords clk gsmTime reports (xs @ ys) =
     decodeRecords clk gsmTime (decodeRecords clk gsmTime reports xs) ys"
  by (induction xs arbitrary: reports) auto

text \<open>
  C1. A buffer whose byte at index 1 is not a key of \<open>msdDecoders\<close> (or is missing)
  makes \<open>decodeMsd\<close> throw, and no record is returned. A GSM record whose byte at index 1
  is not a key of \<open>gsmDecoders\<close> makes \<open>decodeGsmDataRecord\<close> return \<open>null\<close> without an
  error, pushes no report, and the scan goes on: the batch with that record gives the same
  reports as the batch without it.
\<close>

theorem lookup_miss_asymmetry:
  assumes "byteAt buffer 1 \<notin> Some ` fst ` set (msdDecoders clk)"
    and "byteAt recordData 1 \<notin> Some ` fst ` set (gsmDecoders clk)"
    and "\<forall>r \<in> set (before @ (recordType, recordData) # after). length (snd r) < 256"
  shows "decodeMsd clk buffer msd = Inl (UnsupportedModel (byteAt buffer 1)) \<and>
         decodeGsmDataRecord clk gsmTime (Some (uint recordType)) recordData = Inr None \<and>
         tryDecodeGsmDataRecord clk gsmTime (Some (uint recordType)) recordData reports = reports \<and>
         decodeGsmData clk gsmTime (encodeRecords (before @ (recordType, recordData) # after)) =
           decodeGsmData clk gsmTime (encodeRecords (before @ after))"
proof -
  have m: "decodeMsd clk buffer msd = Inl (UnsupportedModel (byteAt buffer 1))"
    using assms(1) by (simp add: decodeMsd_def Let_def flip: lookupDecoder_None_iff)
  have r: "decodeGsmDataRecord clk gsmTime (Some (uint recordType)) recordData = Inr None"
    using assms(2) by (simp add: decodeGsmDataRecord_def Let_def flip: lookupDecoder_None_iff)
  have t: "tryDecodeGsmDataRecord clk gsmTime (Some (uint recordType)) recordData rs = rs" for rs
    by (simp add: tryDecodeGsmDataRecord_def r)
  have l: "\<forall>r \<in> set (before @ after). length (snd r) < 256"
    using assms(3) by auto
  have "decodeRecords clk gsmTime [] (before @ (recordType, recordData) # after) =
        decodeRecords clk gsmTime [] (before @ after)"
    by (simp add: decodeRecords_append t)
  then have "decodeGsmData clk gsmTime (encodeRecords (before @ (recordType, recordData) # after)) =
           decodeGsmData clk gsmTime (encodeRecords (before @ after))"
    by (simp only: decodeGsmData_records [OF assms(3)] decodeGsmData_records [OF l])
  with m r t show ?thesis by blast
qed

theorem lookup_miss_asymmetry_witness:
  "byteAt [0x00, 0x81] 1 \<notin> Some ` fst ` set (msdDecoders \<lparr>clock_now = 0, clock_yesterday = 0\<rparr>) \<and>
   byteAt (replicate 24 0x00) 1
     \<notin> Some ` fst ` set (gsmDecoders \<lparr>clock_now = 0, clock_yesterday = 0\<rparr>) \<and>
   decodeMsd \<lparr>clock_now = 0, clock_yesterday = 0\<rparr> [0x00, 0x81] None =
     Inl (UnsupportedModel (Some 0x81)) \<and>
   decodeGsmData \<lparr>clock_now = 0, clock_yesterday = 0\<rparr> 0
     (encodeRecords ([] @ (0x01, replicate 24 0x00) # [])) =
   decodeGsmData \<lparr>clock_now = 0, clock_yesterday = 0\<rparr> 0 (encodeRecords ([] @ []))"
proof -
  let ?clk = "\<lparr>clock_now = 0, clock_yesterday = 0\<rparr>"
  have b: "byteAt [0x00, 0x81] 1 = Some 0x81"
    by (simp add: byteAt_def)
  have h1: "byteAt [0x00, 0x81] 1 \<notin> Some ` fst ` set (msdDecoders ?clk)"
    unfolding b by (simp add: msdDecoders_def DeviceModel_defs)
  have h2: "byteAt (replicate 24 0x00) 1 \<notin> Some ` fst ` set (gsmDecoders ?clk)"
    by (simp add: byteAt_def gsmDecoders_def DeviceModel_defs)
  have h3: "\<forall>r \<in> set ([] @ (0x01, replicate 24 0x00) # []). length (snd r) < 256"
    by simp
  from lookup_miss_asymmetry [OF h1 h2 h3, of None 0 "[]"] h1 h2
  show ?thesis unfolding b by blast
qed

text \<open>
  C2. When the length byte that the scanner reads at \<open>i + 1\<close> exceeds the bytes that
  remain after the two header bytes, the loop ends with the reports pushed so far. So a
  batch of complete records followed by a truncated one gives exactly the reports of
  the complete records, the same as the batch without the truncated record; the result is
  a list in every case, never an exception.
\<close>

theorem truncation_keeps_earlier_reports:
  assumes "i < length gsmData"
    and "byteAt gsmData (int i + 1) = Some n"
    and "int (length gsmData) - (int i + 2) < n"
    and "\<forall>r \<in> set records. length (snd r) < 256"
    and "length partial < unat len"
  shows "scanGsmData clk gsmTime gsmData i reports = reports \<and>
         decodeGsmData clk gsmTime (encodeRecords records @ [ty, len] @ partial) =
           decodeRecords clk gsmTime [] records \<and>
         decodeGsmData clk gsmTime (encodeRecords records) = decodeRecords clk gsmTime [] records"
  using scanGsmData_truncated [OF assms(1-3)] decodeGsmData_truncated [OF assms(4,5)]
    decodeGsmData_records [OF assms(4)]
  by simp


theorem truncation_keeps_earlier_reports_witness:
  "(0::nat) < length ([0x01, 30] @ replicate 10 (0x00 :: byte)) \<and>
   byteAt ([0x01, 30] @ replicate 10 0x00) (int 0 + 1) = Some 30 \<and>
   int (length ([0x01, 30] @ replicate 10 (0x00 :: byte))) - (int 0 + 2) < 30 \<and>
   length (replicate 10 (0x00 :: byte)) < unat (30 :: byte) \<and>
   scanGsmData \<lparr>clock_now = 0, clock_yesterday = 0\<rparr> 0
     ([0x01, 30] @ replicate 10 0x00) 0 [] = [] \<and>
   decodeGsmData \<lparr>clock_now = 0, clock_yesterday = 0\<rparr> 0
     (encodeRecords [(0x01, [0x02, 0x94] @ replicate 30 0x00)] @ [0x01, 30] @ replicate 10 0x00) =
   decodeGsmData \<lparr>clock_now = 0, clock_yesterday = 0\<rparr> 0
     (encodeRecords [(0x01, [0x02, 0x94] @ replicate 30 0x00)])"
proof -
  have h1: "(0::nat) < length ([0x01, 30] @ replicate 10 (0x00 :: byte))"
    by simp
  have h2: "byteAt ([0x01, 30] @ replicate 10 0x00) (int 0 + 1) = Some 30"
    by (simp add: byteAt_def)
  have h3: "int (length ([0x01, 30] @ replicate 10 (0x00 :: byte))) - (int 0 + 2) < 30"
    by simp
  have h4: "\<forall>r \<in> set [(0x01 :: byte, [0x02, 0x94] @ replicate 30 (0x00 :: byte))].
      length (snd r) < 256"
    by simp
  have h5: "length (replicate 10 (0x00 :: byte)) < unat (30 :: byte)"
    by simp
  from truncation_keeps_earlier_reports [OF h1 h2 h3 h4 h5,
      where clk = "\<lparr>clock_now = 0, clock_yesterday = 0\<rparr>" and gsmTime = 0
        and reports = "[]" and ty = "0x01"]
    h1 h2 h3 h5
  show ?thesis by presburger
qed

section \<open>Model and label of a decoded record\<close>

lemma decodeAlarms_id:
  "decodeAlarms buffer b e msd = Inr m \<Longrightarrow> model m = model msd \<and> modelLabel m = modelLabel msd"
  by (auto simp: decodeAlarms_def Let_def bindE_eq_Inr)

lemma decodeGroups_id:
  "decodeGroups buffer i msd = Inr m \<Longrightarrow> model m = model msd \<and> modelLabel m = modelLabel msd"
  by (auto simp: decodeGroups_def bindE_eq_Inr)

lemma decodeBatteryLevel_id:
  "decodeBatteryLevel buffer i s msd = Inr m \<Longrightarrow>
   model m = model msd \<and> modelLabel m = modelLabel msd"
  by (auto simp: decodeBatteryLevel_def Let_def bindE_eq_Inr)

lemma decodeTime_id:
  "decodeTime buffer i msd = Inr m \<Longrightarrow> model m = model msd \<and> modelLabel m = modelLabel msd"
  by (auto simp: decodeTime_def Let_def bindE_eq_Inr)

lemma decodeEnergyMeter_id:
  "decodeEnergyMeter y buffer i msd = Inr m \<Longrightarrow>
   model m = model msd \<and> modelLabel m = modelLabel msd"
  by (auto simp: decodeEnergyMeter_def Let_def bindE_eq_Inr split: if_splits
      dest!: decodeBatteryLevel_id)

lemma pure_id [simp]:
  "model (decodeRtto buffer i msd) = model msd"
  "modelLabel (decodeRtto buffer i msd) = modelLabel msd"
  "model (decodeInput buffer i msd) = model msd"
  "modelLabel (decodeInput buffer i msd) = modelLabel msd"
  "model (decodeOutput buffer i msd) = model msd"
  "modelLabel (decodeOutput buffer i msd) = modelLabel msd"
  "model (decodeMagneticFieldDirection buffer i msd) = model msd"
  "modelLabel (decodeMagneticFieldDirection buffer i msd) = modelLabel msd"
  "model (decodeSignature buffer i msd) = model msd"
  "modelLabel (decodeSignature buffer i msd) = modelLabel msd"
  by (simp_all add: decodeRtto_def decodeInput_def decodeOutput_def
      decodeMagneticFieldDirection_def decodeSignature_def)

lemma optionally_id:
  assumes "optionally d buffer i msd = Inr m"
    and "d \<in> {None, Some decodeMotionSensor, Some decodeCsrTemperature,
                Some decodeMcp9844Temperature, Some decodeSi7021Temperature,
                Some decodeSi7021Humidity, Some decodeMagneticField}"
  shows "model m = model msd \<and> modelLabel m = modelLabel msd"
  using assms
  by (auto simp: optionally_def decodeMotionSensor_def decodeCsrTemperature_def
      decodeMcp9844Temperature_def decodeSi7021Temperature_def decodeSi7021Humidity_def
      decodeMagneticField_def Let_def bindE_eq_Inr)


lemma decodeMsdCareSensor_id:
  assumes "decodeMsdCareSensor buffer p v1 v2 msd = Inr m"
    and "{p, v1, v2} \<subseteq> {None, Some decodeMotionSensor, Some decodeCsrTemperature,
                Some decodeMcp9844Temperature, Some decodeSi7021Temperature,
                Some decodeSi7021Humidity, Some decodeMagneticField}"
  shows "model m = model msd \<and> modelLabel m = modelLabel msd"
proof -
  from assms(1) obtain m1 m2 m3 m4 m5 m6 m7 where
    s: "decodeAlarms buffer 0 4 msd = Inr m1" "decodeGroups buffer 2 m1 = Inr m2"
      "decodeBatteryLevel buffer 2 12 m2 = Inr m3" "optionally p buffer 6 m3 = Inr m4"
      "optionally v1 buffer 8 m4 = Inr m5" "optionally v2 buffer 10 m5 = Inr m6"
      "decodeTime buffer 12 m6 = Inr m7" "m = decodeSignature buffer 16 m7"
    by (auto simp: decodeMsdCareSensor_def bindE_eq_Inr)
  have d: "p \<in> {None, Some decodeMotionSensor, Some decodeCsrTemperature,
                Some decodeMcp9844Temperature, Some decodeSi7021Temperature,
                Some decodeSi7021Humidity, Some decodeMagneticField}"
    "v1 \<in> {None, Some decodeMotionSensor, Some decodeCsrTemperature,
                Some decodeMcp9844Temperature, Some decodeSi7021Temperature,
                Some decodeSi7021Humidity, Some decodeMagneticField}"
    "v2 \<in> {None, Some decodeMotionSensor, Some decodeCsrTemperature,
                Some decodeMcp9844Temperature, Some decodeSi7021Temperature,
                Some decodeSi7021Humidity, Some decodeMagneticField}"
    using assms(2) by blast+
  show ?thesis
    using decodeAlarms_id [OF s(1)] decodeGroups_id [OF s(2)] decodeBatteryLevel_id [OF s(3)]
      optionally_id [OF s(4) d(1)] optionally_id [OF s(5) d(2)] optionally_id [OF s(6) d(3)]
      decodeTime_id [OF s(7)] s(8)
    by simp
qed

lemma decodeGsmCareSensor_id:
  assumes "decodeGsmCareSensor clk buffer p v1 v2 msd = Inr m"
    and "{p, v1, v2} \<subseteq> {None, Some decodeMotionSensor, Some decodeCsrTemperature,
                Some decodeMcp9844Temperature, Some decodeSi7021Temperature,
                Some decodeSi7021Humidity, Some decodeMagneticField}"
  shows "model m = model msd \<and> modelLabel m = modelLabel msd"
proof -
  from assms(1) obtain m1 m2 m3 m4 where
    s: "decodeAlarms buffer 0 24 msd = Inr m1"
      "optionally p buffer 26
         (m1\<lparr>groups := Some 0, batteryLevel := Some 100, batteryVoltage := Some 2.88\<rparr>) = Inr m2"
      "optionally v1 buffer 28 m2 = Inr m3" "optionally v2 buffer 30 m3 = Inr m4"
      "m = m4\<lparr>time := Some (clock_now clk), signature := Some (replicate 8 0)\<rparr>"
    by (auto simp: decodeGsmCareSensor_def bindE_eq_Inr)
  have d: "p \<in> {None, Some decodeMotionSensor, Some decodeCsrTemperature,
                Some decodeMcp9844Temperature, Some decodeSi7021Temperature,
                Some decodeSi7021Humidity, Some decodeMagneticField}"
    "v1 \<in> {None, Some decodeMotionSensor, Some decodeCsrTemperature,
                Some decodeMcp9844Temperature, Some decodeSi7021Temperature,
                Some decodeSi7021Humidity, Some decodeMagneticField}"
    "v2 \<in> {None, Some decodeMotionSensor, Some decodeCsrTemperature,
                Some decodeMcp9844Temperature, Some decodeSi7021Temperature,
                Some decodeSi7021Humidity, Some decodeMagneticField}"
    using assms(2) by blast+
  show ?thesis
    using decodeAlarms_id [OF s(1)] optionally_id [OF s(2) d(1)] optionally_id [OF s(3) d(2)]
      optionally_id [OF s(4) d(3)] s(5)
    by simp
qed

lemma msdDecoders_label:
  assumes "map_of (msdDecoders clk) k = Some f" and "f buffer msd = Inr m"
  shows "model m = Some k \<and> modelLabel m = map_of modelLabels k"
  using assms
  by (auto simp: msdDecoders_def modelLabels_def DeviceModel_defs bindE_eq_Inr
      split: if_splits
      dest!: decodeAlarms_id decodeEnergyMeter_id
        decodeMsdCareSensor_id)


lemma gsmDecoders_label:
  assumes "map_of (gsmDecoders clk) k = Some f" and "f buffer msd = Inr m"
  shows "model m = model msd \<and> modelLabel m = map_of modelLabels k"
  using assms
  by (auto simp: gsmDecoders_def modelLabels_def DeviceModel_defs bindE_eq_Inr
      split: if_splits
      dest!: decodeAlarms_id decodeEnergyMeter_id decodeMsdCareSensor_id
        decodeGsmCareSensor_id)

lemma modelLabels_nonempty: "map_of modelLabels k = Some l \<Longrightarrow> l \<noteq> []"
  by (auto simp: modelLabels_def split: if_splits)

lemma keys_have_labels:
  "k \<in> fst ` set (msdDecoders clk) \<Longrightarrow> \<exists>l. map_of modelLabels k = Some l"
  "k \<in> fst ` set (gsmDecoders clk) \<Longrightarrow> \<exists>l. map_of modelLabels k = Some l"
  by (auto simp: msdDecoders_def gsmDecoders_def modelLabels_def DeviceModel_defs)

lemma decodeMsd_label:
  assumes "decodeMsd clk buffer msd = Inr m"
  shows "\<exists>k l. byteAt buffer 1 = Some k \<and> model m = Some k \<and> modelLabel m = Some l \<and>
           map_of modelLabels k = Some l \<and> l \<noteq> [] \<and> k \<in> fst ` set (msdDecoders clk)"
proof -
  from assms obtain k f msd0 where
    k: "byteAt buffer 1 = Some k" and f: "map_of (msdDecoders clk) k = Some f"
    and r: "f buffer msd0 = Inr m"
    by (auto simp: decodeMsd_def lookupDecoder_def Let_def bindE_eq_Inr
        split: option.splits)
  have key: "k \<in> fst ` set (msdDecoders clk)"
    using map_of_SomeD [OF f] by force
  obtain l where l: "map_of modelLabels k = Some l"
    using keys_have_labels(1) [OF key] by blast
  show ?thesis
    using msdDecoders_label [OF f r] k l key modelLabels_nonempty [OF l] by simp
qed

lemma decodeGsmDataRecord_label:
  assumes "decodeGsmDataRecord clk gsmTime recordType recordData = Inr (Some r)"
  shows "\<exists>k l. byteAt recordData 1 = Some k \<and> model (manufacturerData r) = Some k \<and>
           modelLabel (manufacturerData r) = Some l \<and>
           map_of modelLabels k = Some l \<and> l \<noteq> [] \<and> k \<in> fst ` set (gsmDecoders clk)"
proof -
  from assms obtain k f m where
    k: "byteAt recordData 1 = Some k" and f: "map_of (gsmDecoders clk) k = Some f"
    and d: "f recordData (emptyMsd\<lparr>msd_type := Some ManufacturerSpecificData,
                                 model := Some k, modelLabel := None\<rparr>) = Inr m"
    and r: "manufacturerData r = m"
    by (auto simp: decodeGsmDataRecord_def lookupDecoder_def Let_def bindE_eq_Inr
        split: option.splits)
  have key: "k \<in> fst ` set (gsmDecoders clk)"
    using map_of_SomeD [OF f] by force
  obtain l where l: "map_of modelLabels k = Some l"
    using keys_have_labels(2) [OF key] by blast
  show ?thesis
    using gsmDecoders_label [OF f d] k l key r modelLabels_nonempty [OF l] by simp
qed


lemma bindE_ok:
  assumes "\<exists>y. a = Inr y" and "\<And>y. \<exists>m. g y = Inr m"
  shows "\<exists>m. bindE a g = Inr m"
  using assms by (auto simp: bindE_eq_Inr)

lemma decodeAlarms_ok:
  assumes "e = - 1 \<or> 0 \<le> e \<and> e + 2 \<le> int (length buffer)"
  shows "\<exists>m. decodeAlarms buffer b e msd = Inr m"
  using assms by (auto simp: decodeAlarms_def Let_def readUInt16LE_def)

lemma decodeGroups_ok:
  "0 \<le> i \<Longrightarrow> i + 2 \<le> int (length buffer) \<Longrightarrow> \<exists>m. decodeGroups buffer i msd = Inr m"
  by (simp add: decodeGroups_def readUInt16LE_def)

lemma decodeBatteryLevel_ok:
  "0 \<le> i \<Longrightarrow> i + 2 \<le> int (length buffer) \<Longrightarrow>
   \<exists>m. decodeBatteryLevel buffer i s msd = Inr m"
  by (simp add: decodeBatteryLevel_def readUInt16LE_def Let_def)

lemma decodeTime_ok:
  "0 \<le> i \<Longrightarrow> i + 4 \<le> int (length buffer) \<Longrightarrow> \<exists>m. decodeTime buffer i msd = Inr m"
  by (simp add: decodeTime_def readUInt16LE_def Let_def)

lemma decodeEnergyMeter_ok:
  assumes "0 \<le> i" and "i + 8 \<le> int (length buffer)"
  shows "\<exists>m. decodeEnergyMeter y buffer i msd = Inr m"
proof -
  obtain w where "readUInt16LE buffer (i + 6) = Inr w"
    using readUInt16LE_ok [of "i + 6" buffer] assms by auto
  from decodeEnergyMeter_result [OF assms(1) this] show ?thesis
    by blast
qed

lemma optionally_ok:
  assumes "d \<in> {None, Some decodeMotionSensor, Some decodeCsrTemperature,
                Some decodeMcp9844Temperature, Some decodeSi7021Temperature,
                Some decodeSi7021Humidity, Some decodeMagneticField}"
    and "0 \<le> i" and "i + 2 \<le> int (length buffer)"
  shows "\<exists>m. optionally d buffer i msd = Inr m"
  using assms
  by (auto simp: optionally_def decodeMotionSensor_def decodeCsrTemperature_def
      decodeMcp9844Temperature_def decodeSi7021Temperature_def decodeSi7021Humidity_def
      decodeMagneticField_def Let_def readUInt16LE_def)

lemma decodeMsdCareSensor_ok:
  assumes "{p, v1, v2} \<subseteq> {None, Some decodeMotionSensor, Some decodeCsrTemperature,
                Some decodeMcp9844Temperature, Some decodeSi7021Temperature,
                Some decodeSi7021Humidity, Some decodeMagneticField}"
    and "16 \<le> length buffer"
  shows "\<exists>m. decodeMsdCareSensor buffer p v1 v2 msd = Inr m"
  unfolding decodeMsdCareSensor_def
  using assms
  by (intro bindE_ok decodeAlarms_ok decodeGroups_ok decodeBatteryLevel_ok decodeTime_ok
      optionally_ok) auto

lemma decodeGsmCareSensor_ok:
  assumes "{p, v1, v2} \<subseteq> {None, Some decodeMotionSensor, Some decodeCsrTemperature,
                Some decodeMcp9844Temperature, Some decodeSi7021Temperature,
                Some decodeSi7021Humidity, Some decodeMagneticField}"
    and "32 \<le> length buffer"
  shows "\<exists>m. decodeGsmCareSensor clk buffer p v1 v2 msd = Inr m"
  unfolding decodeGsmCareSensor_def
  using assms
  by (intro bindE_ok decodeAlarms_ok optionally_ok) auto

lemma length_slice_tail:
  "6 \<le> length buffer \<Longrightarrow> length (slice buffer 0 (- 6)) = length buffer - 6"
  by (simp add: slice_def Let_def)

lemma msdDecoders_ok:
  assumes "map_of (msdDecoders clk) k = Some f" and "16 \<le> length buffer"
  shows "\<exists>m. f buffer msd = Inr m"
  using assms
  by (auto simp: msdDecoders_def DeviceModel_defs split: if_splits
      intro!: bindE_ok decodeAlarms_ok decodeEnergyMeter_ok decodeMsdCareSensor_ok)

lemma gsmDecoders_ok:
  assumes "map_of (gsmDecoders clk) k = Some f" and "38 \<le> length buffer"
  shows "\<exists>m. f buffer msd = Inr m"
  using assms
  by (auto simp: gsmDecoders_def DeviceModel_defs length_slice_tail split: if_splits
      intro!: bindE_ok decodeAlarms_ok decodeEnergyMeter_ok decodeMsdCareSensor_ok
        decodeGsmCareSensor_ok)


lemma key_range:
  "k \<in> fst ` set (msdDecoders clk) \<Longrightarrow> 0 \<le> k \<and> k < 256"
  "k \<in> fst ` set (gsmDecoders clk) \<Longrightarrow> 0 \<le> k \<and> k < 256"
  by (auto simp: msdDecoders_def gsmDecoders_def DeviceModel_defs)

lemma byteAt_model_byte:
  assumes "0 \<le> k" "k < 256"
  shows "byteAt (0 # word_of_int k # replicate n 0) 1 = Some k"
proof -
  have "uint (word_of_int k :: byte) = k"
    using assms by (simp add: uint_word_of_int)
  then show ?thesis by (simp add: byteAt_def)
qed

lemma decodeMsd_ok:
  assumes "k \<in> fst ` set (msdDecoders clk)" and "byteAt buffer 1 = Some k"
    and "16 \<le> length buffer"
  shows "\<exists>m. decodeMsd clk buffer msd = Inr m"
proof -
  obtain f where f: "map_of (msdDecoders clk) k = Some f"
    using assms(1) by (meson map_of_eq_None_iff not_Some_eq)
  obtain c where c: "readUInt16LE buffer 0 = Inr c"
    using readUInt16LE_ok [of 0 buffer] assms(3) by auto
  have "\<exists>m. f buffer msd0 = Inr m" for msd0
    using msdDecoders_ok [OF f assms(3)] by auto
  then show ?thesis
    by (cases msd) (simp_all add: decodeMsd_def assms(2) lookupDecoder_def f c)
qed

lemma decodeGsmDataRecord_ok:
  assumes "k \<in> fst ` set (gsmDecoders clk)" and "byteAt recordData 1 = Some k"
    and "38 \<le> length recordData"
  shows "\<exists>r. decodeGsmDataRecord clk gsmTime recordType recordData = Inr (Some r)"
proof -
  obtain f where f: "map_of (gsmDecoders clk) k = Some f"
    using assms(1) by (meson map_of_eq_None_iff not_Some_eq)
  have "\<forall>i \<in> set [7, 6, 5, 4, 3, 2 :: nat]. i < length recordData"
    using assms(3) by simp
  from macAddressParts_ok [OF this]
  obtain a where a: "decodeGsmMacAddress recordData = Inr a"
    by (simp add: decodeGsmMacAddress_def)
  obtain s where s: "readInt8 recordData (int (length recordData) - 4) = Inr s"
    using assms(3) by (simp add: readInt8_def)
  obtain m where "f recordData (emptyMsd\<lparr>msd_type := Some ManufacturerSpecificData,
                                   model := Some k, modelLabel := None\<rparr>) = Inr m"
    using gsmDecoders_ok [OF f assms(3)] by auto
  then show ?thesis
    by (simp add: decodeGsmDataRecord_def assms(2) lookupDecoder_def f a s)
qed

lemma decodeMsd_exists:
  assumes "k \<in> fst ` set (msdDecoders clk)"
  shows "\<exists>buffer m. byteAt buffer 1 = Some k \<and> decodeMsd clk buffer None = Inr m"
proof -
  let ?b = "0 # word_of_int k # replicate 14 0 :: buffer"
  have k: "byteAt ?b 1 = Some k"
    using key_range(1) [OF assms] by (intro byteAt_model_byte) simp_all
  have "16 \<le> length ?b" by simp
  from decodeMsd_ok [OF assms k this] k show ?thesis
    by blast
qed

lemma decodeGsmDataRecord_exists:
  assumes "k \<in> fst ` set (gsmDecoders clk)"
  shows "\<exists>recordData r. byteAt recordData 1 = Some k \<and>
           decodeGsmDataRecord clk gsmTime recordType recordData = Inr (Some r)"
proof -
  let ?b = "0 # word_of_int k # replicate 36 0 :: buffer"
  have k: "byteAt ?b 1 = Some k"
    using key_range(2) [OF assms] by (intro byteAt_model_byte) simp_all
  have "38 \<le> length ?b" by simp
  from decodeGsmDataRecord_ok [OF assms k this] k show ?thesis
    by blast
qed

lemma distinct_keys:
  "distinct (map fst (msdDecoders clk))" "distinct (map fst (gsmDecoders clk))"
  by (simp_all add: msdDecoders_def gsmDecoders_def DeviceModel_defs)

text \<open>
  C3. Every record that \<open>decodeMsd\<close> returns, and every report that the GSM record path
  returns, has as \<open>model\<close> the byte at index 1 of its buffer and a non-empty
  \<open>modelLabel\<close>. No device model code occurs twice in a table, and for every code of a
  table there is exactly one non-empty label that a successful decode of a buffer with that
  code carries.
\<close>

theorem model_round_trip:
  "(\<forall>buffer msd m. decodeMsd clk buffer msd = Inr m \<longrightarrow>
      model m = byteAt buffer 1 \<and> (\<exists>l. modelLabel m = Some l \<and> l \<noteq> [])) \<and>
   (\<forall>gsmTime recordType recordData r.
      decodeGsmDataRecord clk gsmTime recordType recordData = Inr (Some r) \<longrightarrow>
      model (manufacturerData r) = byteAt recordData 1 \<and>
      (\<exists>l. modelLabel (manufacturerData r) = Some l \<and> l \<noteq> [])) \<and>
   distinct (map fst (msdDecoders clk)) \<and> distinct (map fst (gsmDecoders clk)) \<and>
   (\<forall>k \<in> fst ` set (msdDecoders clk).
      \<exists>!l. l \<noteq> [] \<and>
        (\<exists>buffer m. byteAt buffer 1 = Some k \<and> decodeMsd clk buffer None = Inr m \<and>
           modelLabel m = Some l)) \<and>
   (\<forall>k \<in> fst ` set (gsmDecoders clk).
      \<exists>!l. l \<noteq> [] \<and>
        (\<exists>recordData r. byteAt recordData 1 = Some k \<and>
           decodeGsmDataRecord clk 0 None recordData = Inr (Some r) \<and>
           modelLabel (manufacturerData r) = Some l))"
proof (intro conjI allI impI ballI)
  fix buffer msd m
  assume "decodeMsd clk buffer msd = Inr m"
  from decodeMsd_label [OF this]
  show "model m = byteAt buffer 1" and "\<exists>l. modelLabel m = Some l \<and> l \<noteq> []"
    by auto
next
  fix gsmTime recordType recordData r
  assume "decodeGsmDataRecord clk gsmTime recordType recordData = Inr (Some r)"
  from decodeGsmDataRecord_label [OF this]
  show "model (manufacturerData r) = byteAt recordData 1"
    and "\<exists>l. modelLabel (manufacturerData r) = Some l \<and> l \<noteq> []"
    by auto
next
  show "distinct (map fst (msdDecoders clk))" "distinct (map fst (gsmDecoders clk))"
    by (rule distinct_keys)+
next
  fix k
  assume k: "k \<in> fst ` set (msdDecoders clk)"
  obtain buffer m where b: "byteAt buffer 1 = Some k" "decodeMsd clk buffer None = Inr m"
    using decodeMsd_exists [OF k] by blast
  from decodeMsd_label [OF b(2)] b(1)
  obtain l where l: "modelLabel m = Some l" "map_of modelLabels k = Some l" "l \<noteq> []"
    by auto
  show "\<exists>!l. l \<noteq> [] \<and>
        (\<exists>buffer m. byteAt buffer 1 = Some k \<and> decodeMsd clk buffer None = Inr m \<and>
           modelLabel m = Some l)"
  proof (rule ex1I [of _ l])
    show "l \<noteq> [] \<and>
        (\<exists>buffer m. byteAt buffer 1 = Some k \<and> decodeMsd clk buffer None = Inr m \<and>
           modelLabel m = Some l)"
      using b l by blast
  next
    fix l'
    assume "l' \<noteq> [] \<and>
        (\<exists>buffer m. byteAt buffer 1 = Some k \<and> decodeMsd clk buffer None = Inr m \<and>
           modelLabel m = Some l')"
    then obtain buffer' m' where b': "byteAt buffer' 1 = Some k"
      "decodeMsd clk buffer' None = Inr m'" "modelLabel m' = Some l'"
      by blast
    from decodeMsd_label [OF b'(2)] b'(1) b'(3) l(2) show "l' = l"
      by auto
  qed
next
  fix k
  assume k: "k \<in> fst ` set (gsmDecoders clk)"
  obtain recordData r where b: "byteAt recordData 1 = Some k"
    "decodeGsmDataRecord clk 0 None recordData = Inr (Some r)"
    using decodeGsmDataRecord_exists [OF k] by blast
  from decodeGsmDataRecord_label [OF b(2)] b(1)
  obtain l where l: "modelLabel (manufacturerData r) = Some l" "map_of modelLabels k = Some l"
    "l \<noteq> []"
    by auto
  show "\<exists>!l. l \<noteq> [] \<and>
        (\<exists>recordData r. byteAt recordData 1 = Some k \<and>
           decodeGsmDataRecord clk 0 None recordData = Inr (Some r) \<and>
           modelLabel (manufacturerData r) = Some l)"
  proof (rule ex1I [of _ l])
    show "l \<noteq> [] \<and>
        (\<exists>recordData r. byteAt recordData 1 = Some k \<and>
           decodeGsmDataRecord clk 0 None recordData = Inr (Some r) \<and>
           modelLabel (manufacturerData r) = Some l)"
      using b l by blast
  next
    fix l'
    assume "l' \<noteq> [] \<and>
        (\<exists>recordData r. byteAt recordData 1 = Some k \<and>
           decodeGsmDataRecord clk 0 None recordData = Inr (Some r) \<and>
           modelLabel (manufacturerData r) = Some l')"
    then obtain recordData' r' where b': "byteAt recordData' 1 = Some k"
      "decodeGsmDataRecord clk 0 None recordData' = Inr (Some r')"
      "modelLabel (manufacturerData r') = Some l'"
      by blast
    from decodeGsmDataRecord_label [OF b'(2)] b'(1) b'(3) l(2) show "l' = l"
      by auto
  qed
qed


theorem model_round_trip_witness:
  "(\<exists>m. decodeMsd \<lparr>clock_now = 0, clock_yesterday = 0\<rparr> ([0x00, 0x80] @ replicate 14 0x00) None
          = Inr m \<and>
        model m = Some 0x80 \<and> (\<exists>l. modelLabel m = Some l \<and> l \<noteq> [])) \<and>
   (\<exists>r. decodeGsmDataRecord \<lparr>clock_now = 0, clock_yesterday = 0\<rparr> 0 None
          ([0x00, 0x94] @ replicate 36 0x00) = Inr (Some r) \<and>
        model (manufacturerData r) = Some 0x94 \<and>
        (\<exists>l. modelLabel (manufacturerData r) = Some l \<and> l \<noteq> [])) \<and>
   0x80 \<in> fst ` set (msdDecoders \<lparr>clock_now = 0, clock_yesterday = 0\<rparr>) \<and>
   (\<exists>!l. l \<noteq> [] \<and>
        (\<exists>buffer m. byteAt buffer 1 = Some 0x80 \<and>
           decodeMsd \<lparr>clock_now = 0, clock_yesterday = 0\<rparr> buffer None = Inr m \<and>
           modelLabel m = Some l)) \<and>
   0x94 \<in> fst ` set (gsmDecoders \<lparr>clock_now = 0, clock_yesterday = 0\<rparr>) \<and>
   (\<exists>!l. l \<noteq> [] \<and>
        (\<exists>recordData r. byteAt recordData 1 = Some 0x94 \<and>
           decodeGsmDataRecord \<lparr>clock_now = 0, clock_yesterday = 0\<rparr> 0 None recordData
             = Inr (Some r) \<and>
           modelLabel (manufacturerData r) = Some l))"
proof -
  let ?clk = "\<lparr>clock_now = 0, clock_yesterday = 0\<rparr>"
  let ?b = "[0x00, 0x80] @ replicate 14 0x00 :: buffer"
  let ?d = "[0x00, 0x94] @ replicate 36 0x00 :: buffer"
  have k1: "0x80 \<in> fst ` set (msdDecoders ?clk)"
    by (simp add: msdDecoders_def DeviceModel_defs)
  have k2: "0x94 \<in> fst ` set (gsmDecoders ?clk)"
    by (simp add: gsmDecoders_def DeviceModel_defs)
  have b1: "byteAt ?b 1 = Some 0x80" and b2: "byteAt ?d 1 = Some 0x94"
    by (simp_all add: byteAt_def)
  have "16 \<le> length ?b" by simp
  from decodeMsd_ok [OF k1 b1 this]
  obtain m where m: "decodeMsd ?clk ?b None = Inr m" by blast
  have "38 \<le> length ?d" by simp
  from decodeGsmDataRecord_ok [OF k2 b2 this]
  obtain r where r: "decodeGsmDataRecord ?clk 0 None ?d = Inr (Some r)" by blast
  note t = model_round_trip [of ?clk]
  note t1 = t [THEN conjunct1, rule_format]
  note t2 = t [THEN conjunct2, THEN conjunct1, rule_format]
  note t5 = t [THEN conjunct2, THEN conjunct2, THEN conjunct2, THEN conjunct2, THEN conjunct1,
      rule_format]
  note t6 = t [THEN conjunct2, THEN conjunct2, THEN conjunct2, THEN conjunct2, THEN conjunct2,
      rule_format]
  have a1: "model m = Some 0x80 \<and> (\<exists>l. modelLabel m = Some l \<and> l \<noteq> [])"
    using t1 [OF m] b1 by simp
  have a2: "model (manufacturerData r) = Some 0x94 \<and>
        (\<exists>l. modelLabel (manufacturerData r) = Some l \<and> l \<noteq> [])"
    using t2 [OF r] b2 by simp
  have p1: "\<exists>m. decodeMsd ?clk ?b None = Inr m \<and>
        model m = Some 0x80 \<and> (\<exists>l. modelLabel m = Some l \<and> l \<noteq> [])"
    using m a1 by blast
  have p2: "\<exists>r. decodeGsmDataRecord ?clk 0 None ?d = Inr (Some r) \<and>
        model (manufacturerData r) = Some 0x94 \<and>
        (\<exists>l. modelLabel (manufacturerData r) = Some l \<and> l \<noteq> [])"
    using r a2 by blast
  show ?thesis
    by (intro conjI) (rule p1 p2 k1 k2 t5 [OF k1] t6 [OF k2])+
qed

section \<open>The constant fields of the GSM care sensors\<close>

text \<open>
  \<open>decodeGsmCareSensor\<close> assigns \<open>groups = 0\<close>, \<open>batteryLevel = 100\<close>,
  \<open>batteryVoltage = 2.88\<close> and a signature of eight zero bytes, and the recipes of the
  models \<open>0x94\<close>, \<open>0x95\<close>, \<open>0x96\<close>, \<open>0x9A\<close> and \<open>0x9B\<close> in \<open>gsmDecoders\<close> call
  it.
\<close>

lemma optionally_battery:
  assumes "optionally d buffer i msd = Inr m"
    and "d \<in> {None, Some decodeMotionSensor, Some decodeCsrTemperature,
                Some decodeMcp9844Temperature, Some decodeSi7021Temperature,
                Some decodeSi7021Humidity, Some decodeMagneticField}"
  shows "groups m = groups msd \<and> batteryLevel m = batteryLevel msd \<and>
         batteryVoltage m = batteryVoltage msd"
  using assms
  by (auto simp: optionally_def decodeMotionSensor_def decodeCsrTemperature_def
      decodeMcp9844Temperature_def decodeSi7021Temperature_def decodeSi7021Humidity_def
      decodeMagneticField_def Let_def bindE_eq_Inr)

lemma decodeGsmCareSensor_constants:
  assumes "decodeGsmCareSensor clk buffer p v1 v2 msd = Inr m"
    and "{p, v1, v2} \<subseteq> {None, Some decodeMotionSensor, Some decodeCsrTemperature,
                Some decodeMcp9844Temperature, Some decodeSi7021Temperature,
                Some decodeSi7021Humidity, Some decodeMagneticField}"
  shows "groups m = Some 0 \<and> batteryLevel m = Some 100 \<and> batteryVoltage m = Some 2.88 \<and>
         signature m = Some (replicate 8 0)"
proof -
  from assms(1) obtain m1 m2 m3 m4 where
    s: "decodeAlarms buffer 0 24 msd = Inr m1"
      "optionally p buffer 26
         (m1\<lparr>groups := Some 0, batteryLevel := Some 100, batteryVoltage := Some 2.88\<rparr>) = Inr m2"
      "optionally v1 buffer 28 m2 = Inr m3" "optionally v2 buffer 30 m3 = Inr m4"
      "m = m4\<lparr>time := Some (clock_now clk), signature := Some (replicate 8 0)\<rparr>"
    by (auto simp: decodeGsmCareSensor_def bindE_eq_Inr)
  have d: "p \<in> {None, Some decodeMotionSensor, Some decodeCsrTemperature,
                Some decodeMcp9844Temperature, Some decodeSi7021Temperature,
                Some decodeSi7021Humidity, Some decodeMagneticField}"
    "v1 \<in> {None, Some decodeMotionSensor, Some decodeCsrTemperature,
                Some decodeMcp9844Temperature, Some decodeSi7021Temperature,
                Some decodeSi7021Humidity, Some decodeMagneticField}"
    "v2 \<in> {None, Some decodeMotionSensor, Some decodeCsrTemperature,
                Some decodeMcp9844Temperature, Some decodeSi7021Temperature,
                Some decodeSi7021Humidity, Some decodeMagneticField}"
    using assms(2) by blast+
  show ?thesis
    using optionally_battery [OF s(2) d(1)] optionally_battery [OF s(3) d(2)]
      optionally_battery [OF s(4) d(3)] s(5)
    by simp
qed

lemma gsmDecoders_constants:
  assumes "map_of (gsmDecoders clk) k = Some f"
    and "k \<in> {CareSensor4, CareSensor5, CareSensor6, CareSensorT, CareSensorHT}"
    and "f buffer msd = Inr m"
  shows "groups m = Some 0 \<and> batteryLevel m = Some 100 \<and> batteryVoltage m = Some 2.88 \<and>
         signature m = Some (replicate 8 0)"
  using assms
  by (auto simp: gsmDecoders_def DeviceModel_defs bindE_eq_Inr decodeInput_def decodeOutput_def
      decodeMagneticFieldDirection_def split: if_splits dest!: decodeGsmCareSensor_constants)

text \<open>
  C9. The constants do not hold for the models \<open>0x91\<close>, \<open>0x92\<close> and \<open>0x93\<close>: their
  recipes in \<open>gsmDecoders\<close> call \<open>decodeMsdCareSensor\<close>, which decodes the four fields
  from the bytes of the record. For this batch of one record of model \<open>0x91\<close> the report
  has \<open>groups = 564\<close>, \<open>batteryLevel = 40\<close>, \<open>batteryVoltage = 2.16\<close> and the signature
  \<open>01 02 03 04 05 06 07 08\<close>.
\<close>

theorem gsm_care_sensor_1_not_constant:
  "map (groups \<circ> manufacturerData)
     (decodeGsmData \<lparr>clock_now = 0, clock_yesterday = 0\<rparr> 0
        ([0x01, 24, 0x02, 0x91, 0x34, 0x52, 0xFF, 0xFF, 0x00, 0x00] @ replicate 8 0x00 @
         [1, 2, 3, 4, 5, 6, 7, 8])) = [Some 564] \<and>
   map (batteryLevel \<circ> manufacturerData)
     (decodeGsmData \<lparr>clock_now = 0, clock_yesterday = 0\<rparr> 0
        ([0x01, 24, 0x02, 0x91, 0x34, 0x52, 0xFF, 0xFF, 0x00, 0x00] @ replicate 8 0x00 @
         [1, 2, 3, 4, 5, 6, 7, 8])) = [Some 40] \<and>
   map (batteryVoltage \<circ> manufacturerData)
     (decodeGsmData \<lparr>clock_now = 0, clock_yesterday = 0\<rparr> 0
        ([0x01, 24, 0x02, 0x91, 0x34, 0x52, 0xFF, 0xFF, 0x00, 0x00] @ replicate 8 0x00 @
         [1, 2, 3, 4, 5, 6, 7, 8])) = [Some 2.16] \<and>
   map (signature \<circ> manufacturerData)
     (decodeGsmData \<lparr>clock_now = 0, clock_yesterday = 0\<rparr> 0
        ([0x01, 24, 0x02, 0x91, 0x34, 0x52, 0xFF, 0xFF, 0x00, 0x00] @ replicate 8 0x00 @
         [1, 2, 3, 4, 5, 6, 7, 8])) = [Some [1, 2, 3, 4, 5, 6, 7, 8]]"
  by code_simp

end
